theory Spec2Isabelle
  imports Complex_Main "HOL-Library.Multiset" "HOL-Library.Product_Lexorder"
begin

unbundle bit_operations_syntax

section \<open>Values of the language\<close>

text \<open>
  A dereference of \<open>undefined\<close> (a method call or an iteration on a field that holds
  no object) raises; every function that can raise returns \<open>error + 'a\<close>.
\<close>

datatype error = TypeError

definition bindE :: "error + 'a \<Rightarrow> ('a \<Rightarrow> error + 'b) \<Rightarrow> error + 'b" where
  "bindE m f = (case m of Inl e \<Rightarrow> Inl e | Inr x \<Rightarrow> f x)"

text \<open>
  Numbers that the scene computes itself (the id counter) are integers or \<open>NaN\<close>:
  \<open>undefined++\<close> yields \<open>NaN\<close>. The integers are unbounded; the 2^53 limit of a double
  is outside the model. A field that can hold \<open>undefined\<close> has an option type.
\<close>

datatype jsnum = NaN | Num int

fun to_number :: "jsnum option \<Rightarrow> jsnum" where
  "to_number None = NaN"
| "to_number (Some v) = v"

fun js_add :: "jsnum \<Rightarrow> jsnum \<Rightarrow> jsnum" where
  "js_add (Num a) (Num b) = Num (a + b)"
| "js_add _ _ = NaN"

fun js_sub :: "jsnum \<Rightarrow> jsnum \<Rightarrow> jsnum" where
  "js_sub (Num a) (Num b) = Num (a - b)"
| "js_sub _ _ = NaN"

fun truthy :: "jsnum \<Rightarrow> bool" where
  "truthy NaN = False"
| "truthy (Num a) = (a \<noteq> 0)"

section \<open>Scene: data model\<close>

text \<open>
  Sprites are objects shared between the scene and its callers, so they live in a store
  and \<open>allSprites\<close> holds references. Of a \<open>SpriteLike\<close> the scene reads \<open>z\<close> and
  \<open>id\<close> and writes \<open>id\<close> (fields \<open>sprite_z\<close>, \<open>sprite_id\<close>).
\<close>

type_synonym sprite_ref = nat
type_synonym image_ref = nat

record SpriteLike =
  sprite_z :: int
  sprite_id :: "jsnum option"

text \<open>\<open>enum Flag { NeedsSorting = 1 << 1 }\<close>\<close>

definition NeedsSorting :: int where
  "NeedsSorting = push_bit 1 1"

record SpriteHandler =
  sh_kind :: int
  sh_handler :: nat

record OverlapHandler =
  oh_kind :: int
  oh_otherKind :: int
  oh_handler :: nat

record GameForeverHandler =
  gf_lock :: bool
  gf_handler :: nat

text \<open>Frame handler priorities.\<close>

definition CONTROLLER_PRIORITY :: int where "CONTROLLER_PRIORITY = 8"
definition UPDATE_CONTROLLER_PRIORITY :: int where "UPDATE_CONTROLLER_PRIORITY = 13"
definition FOLLOW_SPRITE_PRIORITY :: int where "FOLLOW_SPRITE_PRIORITY = 14"
definition PHYSICS_PRIORITY :: int where "PHYSICS_PRIORITY = 15"
definition ANIMATION_UPDATE_PRIORITY :: int where "ANIMATION_UPDATE_PRIORITY = 15"
definition CONTROLLER_SPRITES_PRIORITY :: int where "CONTROLLER_SPRITES_PRIORITY = 13"
definition UPDATE_INTERVAL_PRIORITY :: int where "UPDATE_INTERVAL_PRIORITY = 19"
definition UPDATE_PRIORITY :: int where "UPDATE_PRIORITY = 20"
definition RENDER_BACKGROUND_PRIORITY :: int where "RENDER_BACKGROUND_PRIORITY = 60"
definition RENDER_SPRITES_PRIORITY :: int where "RENDER_SPRITES_PRIORITY = 90"
definition RENDER_DIAGNOSTICS_PRIORITY :: int where "RENDER_DIAGNOSTICS_PRIORITY = 150"
definition UPDATE_SCREEN_PRIORITY :: int where "UPDATE_SCREEN_PRIORITY = 200"

lemmas priority_defs =
  CONTROLLER_PRIORITY_def UPDATE_CONTROLLER_PRIORITY_def FOLLOW_SPRITE_PRIORITY_def
  PHYSICS_PRIORITY_def ANIMATION_UPDATE_PRIORITY_def CONTROLLER_SPRITES_PRIORITY_def
  UPDATE_INTERVAL_PRIORITY_def UPDATE_PRIORITY_def RENDER_BACKGROUND_PRIORITY_def
  RENDER_SPRITES_PRIORITY_def RENDER_DIAGNOSTICS_PRIORITY_def UPDATE_SCREEN_PRIORITY_def

text \<open>
  The callbacks that \<open>Scene.init\<close> hands to the event context, one constructor for
  each closure or function reference of the source, in the order of the source;
  \<open>Extension n\<close> is a callback registered by code outside the scene.
\<close>

datatype handler =
    ControllerState
  | MoveSprites
  | PhysicsStep
  | RenderSprites
  | RenderDiagnostics
  | ScreenUpdate
  | Extension nat

record FrameCallback =
  fc_order :: int
  fc_handler :: handler

record EventContext =
  frameCallbacks :: "FrameCallback list"
  deltaTimeMillis :: int
  deltaTime :: rat

text \<open>
  Modelled from the spec: \<open>EventContext.registerFrameHandler\<close> is not among the sources.
  The spec (4.1) has an ordered registry of (priority, callback) pairs in which a lower
  priority runs earlier and ties are broken by registration order: the new callback goes
  before the first registered one of a strictly greater priority.
\<close>

fun insert_callback :: "FrameCallback \<Rightarrow> FrameCallback list \<Rightarrow> FrameCallback list" where
  "insert_callback fn [] = [fn]"
| "insert_callback fn (c # cs) =
     (if fc_order c > fc_order fn then fn # c # cs else c # insert_callback fn cs)"

definition registerFrameHandler :: "int \<Rightarrow> handler \<Rightarrow> EventContext \<Rightarrow> EventContext" where
  "registerFrameHandler order h ec =
     ec\<lparr>frameCallbacks := insert_callback \<lparr>fc_order = order, fc_handler = h\<rparr> (frameCallbacks ec)\<rparr>"

text \<open>Collaborators that the scene only creates, holds and calls.\<close>

datatype Camera = NewCamera
datatype PhysicsEngine = ArcadePhysicsEngine
datatype Background = NewBackground Camera
datatype TileMap = NewTileMap nat

record Scene =
  eventContext :: "EventContext option"
  background :: "Background option"
  tileMap :: "TileMap option"
  allSprites :: "sprite_ref list option"
  spriteNextId :: "jsnum option"
  spritesByKind :: "(int \<times> sprite_ref list) list option"
  physicsEngine :: "PhysicsEngine option"
  camera :: "Camera option"
  flags :: "int option"
  destroyedHandlers :: "SpriteHandler list option"
  createdHandlers :: "SpriteHandler list option"
  overlapHandlers :: "OverlapHandler list option"
  overlapMap :: "(int \<times> int list) list option"
  collisionHandlers :: "SpriteHandler list list option"
  gameForeverHandlers :: "GameForeverHandler list option"
  particleSources :: "nat list option"
  controlledSprites :: "sprite_ref list list option"
  followingSprites :: "sprite_ref list option"
  u_millis :: int
  u_data :: "(string \<times> string) list option"
  cachedRender :: "image_ref option"

text \<open>
  What the scene's methods do outside the scene: calls into collaborators are recorded
  in \<open>trace\<close> in call order, drawing goes to \<open>screen\<close> (the sequence of draw operations
  applied to the frame buffer), and \<open>screen.clone()\<close> allocates in \<open>images\<close>.
\<close>

datatype call =
    PowerPoke
  | EnablePerfCounter string
  | ControllerUpdate rat
  | ControllerMoveSprites
  | PhysicsMove rat
  | CameraUpdate
  | SpriteUpdate sprite_ref rat
  | OnStats string nat
  | PowerCheckDeepSleep
  | ScreenFlush

datatype draw =
    DrawBackground
  | DrawSprite sprite_ref
  | DrawPhysics
  | DrawConsoleOverlay

record world =
  scn :: Scene
  heap :: "sprite_ref \<Rightarrow> SpriteLike"
  screen :: "draw list"
  images :: "draw list list"
  trace :: "call list"
  game_stats :: bool
  game_debug :: bool
  onStats :: bool
  lastStats :: string

definition log_call :: "call \<Rightarrow> world \<Rightarrow> world" where
  "log_call c w = w\<lparr>trace := trace w @ [c]\<rparr>"

definition paint :: "draw \<Rightarrow> world \<Rightarrow> world" where
  "paint d w = w\<lparr>screen := screen w @ [d]\<rparr>"

section \<open>Scene: lifecycle and sprite registry\<close>

text \<open>The constructor: the fields it does not assign stay \<open>undefined\<close>.\<close>

definition Scene_new :: "EventContext \<Rightarrow> Scene" where
  "Scene_new ec =
     \<lparr>eventContext = Some ec,
      background = Some (NewBackground NewCamera),
      tileMap = None,
      allSprites = None,
      spriteNextId = None,
      spritesByKind = Some [],
      physicsEngine = Some ArcadePhysicsEngine,
      camera = Some NewCamera,
      flags = Some 0,
      destroyedHandlers = Some [],
      createdHandlers = Some [],
      overlapHandlers = Some [],
      overlapMap = Some [],
      collisionHandlers = Some [],
      gameForeverHandlers = Some [],
      particleSources = None,
      controlledSprites = Some [],
      followingSprites = None,
      u_millis = 0,
      u_data = Some [],
      cachedRender = None\<rparr>"

text \<open>\<open>this.eventContext.registerFrameHandler(order, h)\<close> on the scene of the world.\<close>

definition scene_register :: "int \<Rightarrow> handler \<Rightarrow> world \<Rightarrow> error + world" where
  "scene_register order h w =
     (case eventContext (scn w) of
        None \<Rightarrow> Inl TypeError
      | Some ec \<Rightarrow> Inr (w\<lparr>scn := (scn w)\<lparr>eventContext := Some (registerFrameHandler order h ec)\<rparr>\<rparr>))"

text \<open>\<open>Scene.initializers.forEach(f => f(this))\<close>; the static list is a parameter.\<close>

fun run_initializers :: "(world \<Rightarrow> error + world) list \<Rightarrow> world \<Rightarrow> error + world" where
  "run_initializers [] w = Inr w"
| "run_initializers (f # fs) w = bindE (f w) (run_initializers fs)"

definition init :: "(world \<Rightarrow> error + world) list \<Rightarrow> world \<Rightarrow> error + world" where
  "init initializers w =
     (if allSprites (scn w) \<noteq> None then Inr w
      else
        let w = log_call PowerPoke w;
            w = w\<lparr>scn := (scn w)\<lparr>allSprites := Some []\<rparr>\<rparr>;
            w = w\<lparr>scn := (scn w)\<lparr>spriteNextId := Some (Num 0)\<rparr>\<rparr>
        in bindE (scene_register CONTROLLER_PRIORITY ControllerState w) (\<lambda>w.
           bindE (scene_register CONTROLLER_SPRITES_PRIORITY MoveSprites w) (\<lambda>w.
           bindE (scene_register PHYSICS_PRIORITY PhysicsStep w) (\<lambda>w.
           bindE (scene_register RENDER_SPRITES_PRIORITY RenderSprites w) (\<lambda>w.
           bindE (scene_register RENDER_DIAGNOSTICS_PRIORITY RenderDiagnostics w) (\<lambda>w.
           bindE (scene_register UPDATE_SCREEN_PRIORITY ScreenUpdate w) (\<lambda>w.
           run_initializers initializers w)))))))"

text \<open>
  \<open>addSprite\<close>: \<open>this.allSprites.push(sprite)\<close> raises when \<open>allSprites\<close> is
  \<open>undefined\<close>; \<open>sprite.id = this.spriteNextId++\<close> stores the old counter value in the
  sprite object and the incremented value in the counter.
\<close>

definition addSprite :: "sprite_ref \<Rightarrow> world \<Rightarrow> error + world" where
  "addSprite sprite w =
     (case allSprites (scn w) of
        None \<Rightarrow> Inl TypeError
      | Some xs \<Rightarrow>
          let old = to_number (spriteNextId (scn w))
          in Inr (w\<lparr>scn := (scn w)\<lparr>allSprites := Some (xs @ [sprite]),
                                   spriteNextId := Some (js_add old (Num 1))\<rparr>,
                    heap := (heap w)(sprite := (heap w sprite)\<lparr>sprite_id := Some old\<rparr>)\<rparr>))"

text \<open>
  A scene's use over time, as far as the sprite registry sees it: calls of \<open>addSprite\<close>,
  interleaved with code outside the scene that rewrites the public \<open>allSprites\<close> array
  (removing sprites, for instance). \<open>spriteNextId\<close> is private: only \<open>init\<close>,
  \<open>addSprite\<close> and \<open>destroy\<close> write it. \<open>run_ops\<close> returns the id that each
  \<open>addSprite\<close> call assigned, in call order.
\<close>

datatype scene_op =
    AddSprite sprite_ref
  | EditSprites "sprite_ref list \<Rightarrow> sprite_ref list"

definition edit_sprites :: "(sprite_ref list \<Rightarrow> sprite_ref list) \<Rightarrow> world \<Rightarrow> world" where
  "edit_sprites f w = w\<lparr>scn := (scn w)\<lparr>allSprites := map_option f (allSprites (scn w))\<rparr>\<rparr>"

fun run_ops :: "scene_op list \<Rightarrow> world \<Rightarrow> error + (jsnum option list \<times> world)" where
  "run_ops [] w = Inr ([], w)"
| "run_ops (AddSprite r # ops) w =
     bindE (addSprite r w) (\<lambda>w1.
     bindE (run_ops ops w1) (\<lambda>(ids, w2). Inr (sprite_id (heap w1 r) # ids, w2)))"
| "run_ops (EditSprites f # ops) w = run_ops ops (edit_sprites f w)"

fun count_adds :: "scene_op list \<Rightarrow> nat" where
  "count_adds [] = 0"
| "count_adds (AddSprite r # ops) = Suc (count_adds ops)"
| "count_adds (EditSprites f # ops) = count_adds ops"

definition ids_from :: "int \<Rightarrow> nat \<Rightarrow> jsnum option list" where
  "ids_from k n = map (\<lambda>i. Some (Num (k + int i))) [0..<n]"

text \<open>
  \<open>destroy\<close> assigns \<open>undefined\<close> to the fields it lists, in the order of the source.
\<close>

definition destroy :: "world \<Rightarrow> world" where
  "destroy w =
     w\<lparr>scn := (scn w)\<lparr>
        eventContext := None,
        background := None,
        tileMap := None,
        allSprites := None,
        spriteNextId := None,
        spritesByKind := None,
        physicsEngine := None,
        camera := None,
        flags := None,
        destroyedHandlers := None,
        createdHandlers := None,
        overlapHandlers := None,
        collisionHandlers := None,
        gameForeverHandlers := None,
        u_data := None\<rparr>\<rparr>"

section \<open>Scene: rendering\<close>

text \<open>
  The comparator of \<open>renderCore\<close>: \<open>a.z - b.z || a.id - b.id\<close>. An \<open>id\<close> that was
  never assigned reads as \<open>undefined\<close> and makes the difference \<open>NaN\<close>.
\<close>

definition sprite_compare :: "SpriteLike \<Rightarrow> SpriteLike \<Rightarrow> jsnum" where
  "sprite_compare a b =
     (let dz = Num (sprite_z a - sprite_z b)
      in if truthy dz then dz else js_sub (to_number (sprite_id a)) (to_number (sprite_id b)))"

text \<open>
  \<open>Array.prototype.sort\<close> belongs to the language's library. It is modelled as a stable
  insertion sort driven by the comparator: a positive result puts the first argument
  after the second; zero, a negative result and \<open>NaN\<close> leave it in front.
\<close>

fun positive :: "jsnum \<Rightarrow> bool" where
  "positive NaN = False"
| "positive (Num a) = (a > 0)"

fun insert_sorted :: "('a \<Rightarrow> 'a \<Rightarrow> jsnum) \<Rightarrow> 'a \<Rightarrow> 'a list \<Rightarrow> 'a list" where
  "insert_sorted cmp x [] = [x]"
| "insert_sorted cmp x (y # ys) =
     (if positive (cmp x y) then y # insert_sorted cmp x ys else x # y # ys)"

definition array_sort :: "('a \<Rightarrow> 'a \<Rightarrow> jsnum) \<Rightarrow> 'a list \<Rightarrow> 'a list" where
  "array_sort cmp xs = foldr (insert_sorted cmp) xs []"

text \<open>\<open>this.flags & Flag.NeedsSorting\<close>: \<open>undefined\<close> converts to 0.\<close>

fun js_and :: "int option \<Rightarrow> int \<Rightarrow> int" where
  "js_and None m = 0"
| "js_and (Some f) m = f AND m"

definition draw_sprites :: "sprite_ref list \<Rightarrow> world \<Rightarrow> world" where
  "draw_sprites xs w = foldl (\<lambda>w s. paint (DrawSprite s) w) w xs"

definition renderCore :: "world \<Rightarrow> error + world" where
  "renderCore w =
     (let w = log_call (EnablePerfCounter ''render background'') w
      in case background (scn w) of
           None \<Rightarrow> Inl TypeError
         | Some bg \<Rightarrow>
             let w = paint DrawBackground w;
                 w = log_call (EnablePerfCounter ''sprite sort'') w
             in bindE
                  (if js_and (flags (scn w)) NeedsSorting \<noteq> 0
                   then (case allSprites (scn w) of
                           None \<Rightarrow> Inl TypeError
                         | Some xs \<Rightarrow>
                             Inr (w\<lparr>scn := (scn w)\<lparr>allSprites :=
                                    Some (array_sort (\<lambda>a b. sprite_compare (heap w a) (heap w b)) xs)\<rparr>\<rparr>))
                   else Inr w)
                  (\<lambda>w. let w = log_call (EnablePerfCounter ''sprite draw'') w
                       in case allSprites (scn w) of
                            None \<Rightarrow> Inl TypeError
                          | Some xs \<Rightarrow> Inr (draw_sprites xs w)))"

text \<open>
  \<open>render\<close>: an image object is truthy, so \<open>if (this.cachedRender)\<close> tests for
  \<open>undefined\<close>. \<open>screen.clone()\<close> allocates a new image that holds the screen's
  content; the reference of the new image is its index in \<open>images\<close>.
\<close>

definition screen_clone :: "world \<Rightarrow> image_ref \<times> world" where
  "screen_clone w = (length (images w), w\<lparr>images := images w @ [screen w]\<rparr>)"

definition render :: "world \<Rightarrow> error + (image_ref \<times> world)" where
  "render w =
     (case cachedRender (scn w) of
        Some img \<Rightarrow> Inr (img, w)
      | None \<Rightarrow>
          bindE (renderCore w) (\<lambda>w.
            let (img, w) = screen_clone w;
                w = w\<lparr>scn := (scn w)\<lparr>cachedRender := Some img\<rparr>\<rparr>
            in Inr (img, w)))"

section \<open>Scene: the frame handlers that init registers\<close>

text \<open>Decimal rendering of a count, for the template string of the statistics line.\<close>

definition digit_char :: "nat \<Rightarrow> char" where
  "digit_char d = ''0123456789'' ! d"

function nat_toString :: "nat \<Rightarrow> string" where
  "nat_toString n =
     (if n < 10 then [digit_char n] else nat_toString (n div 10) @ [digit_char (n mod 10)])"
  by pat_completeness auto
termination
  by (relation "measure id") auto

declare nat_toString.simps [simp del]

definition handle_ControllerState :: "world \<Rightarrow> error + world" where
  "handle_ControllerState w =
     (case eventContext (scn w) of
        None \<Rightarrow> Inl TypeError
      | Some ec \<Rightarrow>
          let w = w\<lparr>scn := (scn w)\<lparr>u_millis := u_millis (scn w) + deltaTimeMillis ec\<rparr>\<rparr>;
              w = log_call (EnablePerfCounter ''controller_update'') w
          in Inr (log_call (ControllerUpdate (deltaTime ec)) w))"

definition update_sprites :: "rat \<Rightarrow> sprite_ref list \<Rightarrow> world \<Rightarrow> world" where
  "update_sprites dt xs w = foldl (\<lambda>w s. log_call (SpriteUpdate s dt) w) w xs"

definition handle_PhysicsStep :: "world \<Rightarrow> error + world" where
  "handle_PhysicsStep w =
     (let w = log_call (EnablePerfCounter ''physics and collisions'') w
      in case eventContext (scn w) of
           None \<Rightarrow> Inl TypeError
         | Some ec \<Rightarrow>
             let dt = deltaTime ec
             in case physicsEngine (scn w) of
                  None \<Rightarrow> Inl TypeError
                | Some pe \<Rightarrow>
                    let w = log_call (PhysicsMove dt) w
                    in case camera (scn w) of
                         None \<Rightarrow> Inl TypeError
                       | Some cam \<Rightarrow>
                           let w = log_call CameraUpdate w
                           in case allSprites (scn w) of
                                None \<Rightarrow> Inl TypeError
                              | Some xs \<Rightarrow> Inr (update_sprites dt xs w))"

definition handle_RenderSprites :: "world \<Rightarrow> error + world" where
  "handle_RenderSprites w =
     (let w = log_call (EnablePerfCounter ''sprite_draw'') w;
          w = w\<lparr>scn := (scn w)\<lparr>cachedRender := None\<rparr>\<rparr>
      in renderCore w)"

definition handle_RenderDiagnostics :: "world \<Rightarrow> error + world" where
  "handle_RenderDiagnostics w =
     bindE
       (if game_stats w \<and> onStats w
        then (case allSprites (scn w) of
                None \<Rightarrow> Inl TypeError
              | Some xs \<Rightarrow>
                  Inr (log_call (OnStats (lastStats w @ '' sprites:'' @ nat_toString (length xs))
                                  (length xs)) w))
        else Inr w)
       (\<lambda>w. bindE
          (if game_debug w
           then (case physicsEngine (scn w) of
                   None \<Rightarrow> Inl TypeError
                 | Some pe \<Rightarrow> Inr (paint DrawPhysics w))
           else Inr w)
          (\<lambda>w. let w = paint DrawConsoleOverlay w;
                   w = w\<lparr>scn := (scn w)\<lparr>flags := Some 0\<rparr>\<rparr>
               in Inr (log_call PowerCheckDeepSleep w)))"

text \<open>
  What each registered callback does when the event context invokes it; the bodies of
  callbacks registered by other modules are the parameter \<open>ext\<close>.
\<close>

fun run_handler :: "(nat \<Rightarrow> world \<Rightarrow> error + world) \<Rightarrow> handler \<Rightarrow> world \<Rightarrow> error + world" where
  "run_handler ext ControllerState w = handle_ControllerState w"
| "run_handler ext MoveSprites w = Inr (log_call ControllerMoveSprites w)"
| "run_handler ext PhysicsStep w = handle_PhysicsStep w"
| "run_handler ext RenderSprites w = handle_RenderSprites w"
| "run_handler ext RenderDiagnostics w = handle_RenderDiagnostics w"
| "run_handler ext ScreenUpdate w = Inr (log_call ScreenFlush w)"
| "run_handler ext (Extension n) w = ext n w"

text \<open>
  Modelled from the spec: the frame loop of the event context is not among the sources.
  The spec (2, 4.1, 5) has every registered handler run synchronously to completion,
  once per tick, in ascending priority order: the registry is kept in that order, and
  a tick runs it from front to back. The registry is the one the scene holds; a scene
  that has released its event context cannot be ticked through it.
\<close>

fun run_callbacks ::
  "(nat \<Rightarrow> world \<Rightarrow> error + world) \<Rightarrow> FrameCallback list \<Rightarrow> world \<Rightarrow> error + world" where
  "run_callbacks ext [] w = Inr w"
| "run_callbacks ext (c # cs) w = bindE (run_handler ext (fc_handler c) w) (run_callbacks ext cs)"

definition tick :: "(nat \<Rightarrow> world \<Rightarrow> error + world) \<Rightarrow> world \<Rightarrow> error + world" where
  "tick ext w =
     (case eventContext (scn w) of
        None \<Rightarrow> Inl TypeError
      | Some ec \<Rightarrow> run_callbacks ext (frameCallbacks ec) w)"

section \<open>A concrete world\<close>

text \<open>
  A freshly constructed scene on an event context with no callbacks, a 20 ms frame,
  and a store in which sprite 0 has z = 5 and every other sprite z = 1.
\<close>

definition ec0 :: EventContext where
  "ec0 = \<lparr>frameCallbacks = [], deltaTimeMillis = 20, deltaTime = 1 / 50\<rparr>"

definition heap0 :: "sprite_ref \<Rightarrow> SpriteLike" where
  "heap0 r = \<lparr>sprite_z = (if r = 0 then 5 else 1), sprite_id = None\<rparr>"

definition world0 :: world where
  "world0 = \<lparr>scn = Scene_new ec0, heap = heap0, screen = [], images = [], trace = [],
             game_stats = False, game_debug = False, onStats = False, lastStats = []\<rparr>"

section \<open>Scene: notions used in the statements\<close>

text \<open>The event context after the six registrations of \<open>init\<close>.\<close>

definition registered_by_init :: "EventContext \<Rightarrow> EventContext" where
  "registered_by_init ec =
     registerFrameHandler UPDATE_SCREEN_PRIORITY ScreenUpdate
      (registerFrameHandler RENDER_DIAGNOSTICS_PRIORITY RenderDiagnostics
        (registerFrameHandler RENDER_SPRITES_PRIORITY RenderSprites
          (registerFrameHandler PHYSICS_PRIORITY PhysicsStep
            (registerFrameHandler CONTROLLER_SPRITES_PRIORITY MoveSprites
              (registerFrameHandler CONTROLLER_PRIORITY ControllerState ec)))))"

definition init_callbacks :: "FrameCallback list" where
  "init_callbacks =
     [\<lparr>fc_order = CONTROLLER_PRIORITY, fc_handler = ControllerState\<rparr>,
      \<lparr>fc_order = CONTROLLER_SPRITES_PRIORITY, fc_handler = MoveSprites\<rparr>,
      \<lparr>fc_order = PHYSICS_PRIORITY, fc_handler = PhysicsStep\<rparr>,
      \<lparr>fc_order = RENDER_SPRITES_PRIORITY, fc_handler = RenderSprites\<rparr>,
      \<lparr>fc_order = RENDER_DIAGNOSTICS_PRIORITY, fc_handler = RenderDiagnostics\<rparr>,
      \<lparr>fc_order = UPDATE_SCREEN_PRIORITY, fc_handler = ScreenUpdate\<rparr>]"

definition registered_priorities :: "error + world \<Rightarrow> int list" where
  "registered_priorities m =
     (case m of
        Inl e \<Rightarrow> []
      | Inr w \<Rightarrow> (case eventContext (scn w) of
                   None \<Rightarrow> []
                 | Some ec \<Rightarrow> map fc_order (frameCallbacks ec)))"

text \<open>
  An initializer callback is code outside the scene. \<open>keeps_sprites f\<close> says that \<open>f\<close>
  does not take the sprite list away from a scene that has one (it does not call
  \<open>destroy\<close>, for instance).
\<close>

definition keeps_sprites :: "(world \<Rightarrow> error + world) \<Rightarrow> bool" where
  "keeps_sprites f = (\<forall>w w'. allSprites (scn w) \<noteq> None \<longrightarrow> f w = Inr w' \<longrightarrow> allSprites (scn w') \<noteq> None)"

text \<open>An initializer that registers a camera-follow handler and adds one sprite.\<close>

definition follow_initializer :: "world \<Rightarrow> error + world" where
  "follow_initializer w = bindE (scene_register FOLLOW_SPRITE_PRIORITY (Extension 0) w) (addSprite 7)"

text \<open>
  The order that the comparator of \<open>renderCore\<close> describes on sprites whose ids are
  numbers: by \<open>z\<close>, then by \<open>id\<close> (pairs are compared lexicographically).
\<close>

fun numeric_id :: "SpriteLike \<Rightarrow> bool" where
  "numeric_id s = (case sprite_id s of Some (Num n) \<Rightarrow> True | _ \<Rightarrow> False)"

fun id_number :: "SpriteLike \<Rightarrow> int" where
  "id_number s = (case sprite_id s of Some (Num n) \<Rightarrow> n | _ \<Rightarrow> 0)"

definition sort_key :: "SpriteLike \<Rightarrow> int \<times> int" where
  "sort_key s = (sprite_z s, id_number s)"

text \<open>
  Code outside the scene asks for a sort by setting the flag in the public \<open>flags\<close>
  field: \<open>scene.flags |= Flag.NeedsSorting\<close>.
\<close>

definition request_sort :: "world \<Rightarrow> world" where
  "request_sort w =
     w\<lparr>scn := (scn w)\<lparr>flags := Some ((case flags (scn w) of None \<Rightarrow> 0 | Some f \<Rightarrow> f) OR NeedsSorting)\<rparr>\<rparr>"

text \<open>
  A run of two frames: \<open>init()\<close>, sprite 0 (z = 5) and then sprite 1 (z = 1) are added,
  a sort is requested, and one tick passes (\<open>sorted_frame\<close>). \<open>next_draw\<close> is what
  the core draw sequence then puts on the screen, \<open>sorting_flag\<close> the flag it tests.
\<close>

definition no_extension :: "nat \<Rightarrow> world \<Rightarrow> error + world" where
  "no_extension n w = Inr w"

definition two_sprites :: "error + world" where
  "two_sprites = bindE (init [] world0) (\<lambda>w. bindE (addSprite 0 w) (addSprite 1))"

definition sorted_frame :: "error + world" where
  "sorted_frame = bindE two_sprites (\<lambda>w. tick no_extension (request_sort w))"

definition sprite_list :: "error + world \<Rightarrow> error + sprite_ref list option" where
  "sprite_list m = bindE m (\<lambda>w. Inr (allSprites (scn w)))"

definition sorting_flag :: "error + world \<Rightarrow> error + int" where
  "sorting_flag m = bindE m (\<lambda>w. Inr (js_and (flags (scn w)) NeedsSorting))"

definition next_draw :: "error + world \<Rightarrow> error + draw list" where
  "next_draw m = bindE m (\<lambda>w. bindE (renderCore w) (\<lambda>w'. Inr (drop (length (screen w)) (screen w'))))"

section \<open>Serial: data model\<close>

text \<open>
  A \<open>Buffer\<close> is a sequence of bytes and a string is held as its UTF-8 bytes; a \<open>char\<close>
  of HOL is one byte. \<open>control.createBufferFromUTF8\<close> and \<open>Buffer.toString\<close>, which
  are not among the sources, therefore copy the bytes.
\<close>

type_synonym Buffer = "char list"

definition createBufferFromUTF8 :: "string \<Rightarrow> Buffer" where
  "createBufferFromUTF8 text = text"

definition createBuffer :: "nat \<Rightarrow> Buffer" where
  "createBuffer n = replicate n (CHR 0x00)"

text \<open>
  Modelled from the spec: the class \<open>UTF8Decoder\<close> is not among the sources. The spec
  (6 and glossary) has a stateful assembler that buffers received bytes across read
  calls; \<open>decodeUntil\<close> yields the text up to and excluding the delimiter once the
  delimiter is buffered, and consumes it with the delimiter; \<open>decode\<close> yields the
  buffered text. Buffers hold whole characters: a multi-byte sequence cut by the end of
  a buffer is outside the model.
\<close>

record UTF8Decoder =
  dbuf :: Buffer

definition UTF8Decoder_new :: UTF8Decoder where
  "UTF8Decoder_new = \<lparr>dbuf = []\<rparr>"

definition UTF8Decoder_add :: "Buffer \<Rightarrow> UTF8Decoder \<Rightarrow> UTF8Decoder" where
  "UTF8Decoder_add buf d = d\<lparr>dbuf := dbuf d @ buf\<rparr>"

definition UTF8Decoder_decode :: "UTF8Decoder \<Rightarrow> string \<times> UTF8Decoder" where
  "UTF8Decoder_decode d = (dbuf d, d\<lparr>dbuf := []\<rparr>)"

definition UTF8Decoder_decodeUntil :: "char \<Rightarrow> UTF8Decoder \<Rightarrow> (string \<times> UTF8Decoder) option" where
  "UTF8Decoder_decodeUntil delimiter d =
     (if delimiter \<in> set (dbuf d)
      then Some (takeWhile (\<lambda>c. c \<noteq> delimiter) (dbuf d),
                 d\<lparr>dbuf := tl (dropWhile (\<lambda>c. c \<noteq> delimiter) (dbuf d))\<rparr>)
      else None)"

text \<open>
  Modelled from the spec: the transport device and its native methods are not among the
  sources. The spec (6) has a byte stream over a configurable transport: \<open>rx\<close> lists
  what the successive \<open>readBuffer()\<close> calls find received (nothing once the list is
  used up), \<open>tx\<close> is everything sent so far; the other fields record the configuration
  calls. \<open>read()\<close> takes one received byte, and is 0 if there is no data.
\<close>

record Device =
  rx :: "Buffer list"
  tx :: Buffer
  rxBufferSize :: int
  txBufferSize :: int
  baudRate :: int
  pins :: "(nat \<times> nat) option"
  eventHandlers :: "(nat \<times> nat) list"

definition Device_readBuffer :: "Device \<Rightarrow> Buffer \<times> Device" where
  "Device_readBuffer d = (case rx d of [] \<Rightarrow> ([], d) | c # cs \<Rightarrow> (c, d\<lparr>rx := cs\<rparr>))"

definition Device_read :: "Device \<Rightarrow> int \<times> Device" where
  "Device_read d =
     (case rx d of
        [] \<Rightarrow> (0, d)
      | c # cs \<Rightarrow> (case c of
                    [] \<Rightarrow> (0, d\<lparr>rx := cs\<rparr>)
                  | b # bs \<Rightarrow> (of_char b, d\<lparr>rx := bs # cs\<rparr>)))"

definition Device_writeBuffer :: "Buffer \<Rightarrow> Device \<Rightarrow> Device" where
  "Device_writeBuffer buffer d = d\<lparr>tx := tx d @ buffer\<rparr>"

text \<open>
  The state of the \<open>serial\<close> namespace: the exported variable \<open>NEW_LINE\<close>, the lazily
  created \<open>_decoder\<close>, the device that \<open>device()\<close> returns (\<open>None\<close> when no transport is
  available), the millisecond clock that \<open>control.millis()\<close> reads, and the number of
  times \<open>logListener\<close> was added to the console.
\<close>

record serial_state =
  NEW_LINE :: string
  u_decoder :: "UTF8Decoder option"
  device :: "Device option"
  millis :: int
  consoleListeners :: nat

definition CRLF :: string where
  "CRLF = [CHR 0x0D, CHR 0x0A]"

text \<open>The namespace as loaded: \<open>NEW_LINE = "\r\n"\<close>, no decoder yet.\<close>

definition serial_init :: "Device option \<Rightarrow> serial_state" where
  "serial_init d = \<lparr>NEW_LINE = CRLF, u_decoder = None, device = d, millis = 0, consoleListeners = 0\<rparr>"

text \<open>
  \<open>pause(ms)\<close> suspends the caller for \<open>ms\<close> time units; a scheduling delay beyond that
  is outside the model.
\<close>

definition pause :: "int \<Rightarrow> serial_state \<Rightarrow> serial_state" where
  "pause ms st = st\<lparr>millis := millis st + ms\<rparr>"

text \<open>
  \<open>enum Delimiters\<close> is declared outside the sources; a delimiter is the byte looked for,
  and the line delimiter is the line feed.
\<close>

type_synonym Delimiters = char

definition Delimiters_NewLine :: Delimiters where
  "Delimiters_NewLine = CHR 0x0A"

text \<open>
  \<open>DAL.DEVICE_NOT_SUPPORTED\<close> is declared in the generated device-abstraction constants,
  outside the sources, as -1002; the doc comment of \<open>read\<close> has "Negative if error, 0
  if no data". \<open>read\<close> takes the constant as a parameter.
\<close>

definition DAL_DEVICE_NOT_SUPPORTED :: int where
  "DAL_DEVICE_NOT_SUPPORTED = - 1002"

section \<open>Serial: operations\<close>

text \<open>
  \<open>decoder()\<close> creates the decoder on first use; \<open>the_decoder\<close> is the object it
  returns, and the methods called on that object act on \<open>_decoder\<close>.
\<close>

definition decoder :: "serial_state \<Rightarrow> serial_state" where
  "decoder st = (case u_decoder st of None \<Rightarrow> st\<lparr>u_decoder := Some UTF8Decoder_new\<rparr> | Some d \<Rightarrow> st)"

definition the_decoder :: "serial_state \<Rightarrow> UTF8Decoder" where
  "the_decoder st = (case u_decoder st of None \<Rightarrow> UTF8Decoder_new | Some d \<Rightarrow> d)"

definition readBuffer :: "serial_state \<Rightarrow> Buffer \<times> serial_state" where
  "readBuffer st =
     (case device st of
        Some ser \<Rightarrow> (let (b, ser) = Device_readBuffer ser in (b, st\<lparr>device := Some ser\<rparr>))
      | None \<Rightarrow> (createBuffer 0, st))"

definition readString :: "serial_state \<Rightarrow> string \<times> serial_state" where
  "readString st =
     (let (buf, st) = readBuffer st;
          st = decoder st;
          st = st\<lparr>u_decoder := Some (UTF8Decoder_add buf (the_decoder st))\<rparr>;
          (s, d) = UTF8Decoder_decode (the_decoder st)
      in (s, st\<lparr>u_decoder := Some d\<rparr>))"

text \<open>
  The \<open>do ... while\<close> loop of \<open>readUntil\<close>. With no timeout it may run forever, so the
  result is an option: \<open>None\<close> is a call that never returns.
\<close>

partial_function (option) readUntil_loop ::
  "Delimiters \<Rightarrow> int option \<Rightarrow> int \<Rightarrow> serial_state \<Rightarrow> (string \<times> serial_state) option" where
  "readUntil_loop delimiter timeOut start st =
     (case UTF8Decoder_decodeUntil delimiter (the_decoder st) of
        Some (s, d) \<Rightarrow> Some (s, st\<lparr>u_decoder := Some d\<rparr>)
      | None \<Rightarrow>
          (let (b, st) = readBuffer st;
               st = st\<lparr>u_decoder := Some (UTF8Decoder_add b (the_decoder st))\<rparr>;
               st = pause 1 st
           in case timeOut of
                None \<Rightarrow> readUntil_loop delimiter timeOut start st
              | Some t \<Rightarrow>
                  if millis st - start < t then readUntil_loop delimiter timeOut start st
                  else Some ([], st)))"

definition readUntil :: "Delimiters \<Rightarrow> int option \<Rightarrow> serial_state \<Rightarrow> (string \<times> serial_state) option" where
  "readUntil delimiter timeOut st =
     (let st = decoder st;
          start = millis st
      in readUntil_loop delimiter timeOut start st)"

definition readLine :: "serial_state \<Rightarrow> (string \<times> serial_state) option" where
  "readLine st = readUntil Delimiters_NewLine None st"

definition writeBuffer :: "Buffer \<Rightarrow> serial_state \<Rightarrow> serial_state" where
  "writeBuffer buffer st =
     (case device st of
        None \<Rightarrow> st
      | Some ser \<Rightarrow> st\<lparr>device := Some (Device_writeBuffer buffer ser)\<rparr>)"

definition writeString :: "string \<Rightarrow> serial_state \<Rightarrow> serial_state" where
  "writeString text st = writeBuffer (createBufferFromUTF8 text) st"

definition writeLine :: "string \<Rightarrow> serial_state \<Rightarrow> serial_state" where
  "writeLine text st = (let st = writeString text st in writeString (NEW_LINE st) st)"

text \<open>
  \<open>value.toString()\<close> belongs to the language's library. How a number is rendered
  is therefore the parameter \<open>toString\<close> of \<open>writeNumber\<close> and \<open>writeValue\<close>, and
  the type of numbers is left open.
\<close>

definition writeNumber :: "('n \<Rightarrow> string) \<Rightarrow> 'n \<Rightarrow> serial_state \<Rightarrow> serial_state" where
  "writeNumber toString v st = writeString (toString v) st"

definition writeValue :: "('n \<Rightarrow> string) \<Rightarrow> string \<Rightarrow> 'n \<Rightarrow> serial_state \<Rightarrow> serial_state" where
  "writeValue toString name v st =
     (let st = (if name \<noteq> [] then writeString '':'' (writeString name st) else st);
          st = writeNumber toString v st
      in writeString (NEW_LINE st) st)"

text \<open>
  The decimal digits of an integer, with its sign. The library's \<open>toString\<close> renders
  an integer of magnitude below 10^21 in this way (beyond that it changes to exponent
  notation, and fractions have a decimal point); the examples apply it to 21 and 5.
\<close>

definition decimal_digits :: "int \<Rightarrow> string" where
  "decimal_digits v = (if v < 0 then CHR ''-'' # nat_toString (nat (- v)) else nat_toString (nat v))"

definition setRxBufferSize :: "int \<Rightarrow> serial_state \<Rightarrow> serial_state" where
  "setRxBufferSize sz st =
     (case device st of
        Some ser \<Rightarrow> st\<lparr>device := Some (ser\<lparr>rxBufferSize := sz\<rparr>)\<rparr>
      | None \<Rightarrow> st)"

definition setTxBufferSize :: "int \<Rightarrow> serial_state \<Rightarrow> serial_state" where
  "setTxBufferSize sz st =
     (case device st of
        Some ser \<Rightarrow> st\<lparr>device := Some (ser\<lparr>txBufferSize := sz\<rparr>)\<rparr>
      | None \<Rightarrow> st)"

definition read :: "int \<Rightarrow> serial_state \<Rightarrow> int \<times> serial_state" where
  "read DEVICE_NOT_SUPPORTED st =
     (case device st of
        Some ser \<Rightarrow> (let (b, ser) = Device_read ser in (b, st\<lparr>device := Some ser\<rparr>))
      | None \<Rightarrow> (DEVICE_NOT_SUPPORTED, st))"

definition setBaudRate :: "int \<Rightarrow> serial_state \<Rightarrow> serial_state" where
  "setBaudRate rate st =
     (case device st of
        None \<Rightarrow> st
      | Some ser \<Rightarrow> st\<lparr>device := Some (ser\<lparr>baudRate := rate\<rparr>)\<rparr>)"

definition attachToConsole :: "serial_state \<Rightarrow> serial_state" where
  "attachToConsole st =
     (case device st of
        None \<Rightarrow> st
      | Some ser \<Rightarrow> st\<lparr>consoleListeners := Suc (consoleListeners st)\<rparr>)"

datatype ConsolePriority = Debug | Error | Warning | Log

definition logListener :: "ConsolePriority \<Rightarrow> string \<Rightarrow> serial_state \<Rightarrow> serial_state" where
  "logListener priority text st =
     (let st = (case priority of
                  Debug \<Rightarrow> writeString ''dbg> '' st
                | Error \<Rightarrow> writeString ''err> '' st
                | Warning \<Rightarrow> writeString ''wrn> '' st
                | Log \<Rightarrow> st)
      in writeLine text st)"

definition redirect :: "nat \<Rightarrow> nat \<Rightarrow> int \<Rightarrow> serial_state \<Rightarrow> serial_state" where
  "redirect txPin rxPin rate st =
     (case device st of
        None \<Rightarrow> st
      | Some ser \<Rightarrow> st\<lparr>device := Some (ser\<lparr>pins := Some (txPin, rxPin), baudRate := rate\<rparr>)\<rparr>)"

definition onEvent :: "nat \<Rightarrow> nat \<Rightarrow> serial_state \<Rightarrow> serial_state" where
  "onEvent event h st =
     (case device st of
        None \<Rightarrow> st
      | Some ser \<Rightarrow> st\<lparr>device := Some (ser\<lparr>eventHandlers := eventHandlers ser @ [(event, h)]\<rparr>)\<rparr>)"

section \<open>Serial: notions used in the statements\<close>

text \<open>What has been sent over the transport.\<close>

definition sent :: "serial_state \<Rightarrow> Buffer" where
  "sent st = (case device st of None \<Rightarrow> [] | Some ser \<Rightarrow> tx ser)"

text \<open>A device on which the given buffers are received, one for each poll.\<close>

definition usb :: "Buffer list \<Rightarrow> Device" where
  "usb received = \<lparr>rx = received, tx = [], rxBufferSize = 64, txBufferSize = 64,
                   baudRate = 115200, pins = None, eventHandlers = []\<rparr>"

text \<open>
  One unsuccessful round of the loop of \<open>readUntil\<close> (read the receive buffer into the
  decoder, pause 1); the buffers still to be received; and what the decoder holds after
  \<open>k\<close> rounds. A timeout \<open>t\<close> allows \<open>rounds t\<close> rounds: at least one, and as many as
  there are whole time units in \<open>t\<close>.
\<close>

definition poll_round :: "serial_state \<Rightarrow> serial_state" where
  "poll_round st =
     (let (b, st) = readBuffer st;
          st = st\<lparr>u_decoder := Some (UTF8Decoder_add b (the_decoder st))\<rparr>
      in pause 1 st)"

definition received :: "serial_state \<Rightarrow> Buffer list" where
  "received st = (case device st of None \<Rightarrow> [] | Some ser \<Rightarrow> rx ser)"

definition buffered :: "nat \<Rightarrow> serial_state \<Rightarrow> Buffer" where
  "buffered k st = dbuf (the_decoder st) @ concat (take k (received st))"

definition rounds :: "int \<Rightarrow> nat" where
  "rounds t = nat (max 1 t)"

text \<open>A namespace just loaded, with the line "hi" waiting in the receive buffer.\<close>

definition line_waiting :: serial_state where
  "line_waiting = serial_init (Some (usb [''hi'' @ [Delimiters_NewLine]]))"

text \<open>
  No transport device: \<open>device()\<close> yields nothing, so nothing was ever received and the
  decoder holds nothing.
\<close>

definition no_device :: "serial_state \<Rightarrow> bool" where
  "no_device st = (device st = None \<and> dbuf (the_decoder st) = [])"

section \<open>Basic facts\<close>

lemma bindE_Inr [simp]: "bindE (Inr x) f = f x"
  by (simp add: bindE_def)

lemma bindE_Inl [simp]: "bindE (Inl e) f = Inl e"
  by (simp add: bindE_def)

lemma scene_register_Some:
  "eventContext (scn w) = Some ec \<Longrightarrow>
   scene_register p h w =
     Inr (w\<lparr>scn := (scn w)\<lparr>eventContext := Some (registerFrameHandler p h ec)\<rparr>\<rparr>)"
  by (simp add: scene_register_def)

lemma scene_register_None:
  "eventContext (scn w) = None \<Longrightarrow> scene_register p h w = Inl TypeError"
  by (simp add: scene_register_def)

lemma init_no_context:
  "allSprites (scn w) = None \<Longrightarrow> eventContext (scn w) = None \<Longrightarrow>
   init inits w = Inl TypeError"
  by (simp add: init_def Let_def scene_register_None log_call_def)

lemma init_fresh:
  assumes "allSprites (scn w) = None" and "eventContext (scn w) = Some ec"
  shows "init inits w = run_initializers inits
           (w\<lparr>trace := trace w @ [PowerPoke],
              scn := (scn w)\<lparr>allSprites := Some [], spriteNextId := Some (Num 0),
                              eventContext := Some (registered_by_init ec)\<rparr>\<rparr>)"
  using assms
  by (simp add: init_def Let_def scene_register_Some log_call_def registered_by_init_def)

lemma init_initialised: "allSprites (scn w) \<noteq> None \<Longrightarrow> init inits w = Inr w"
  by (simp add: init_def)

lemma world0_fresh:
  "allSprites (scn world0) = None" "eventContext (scn world0) = Some ec0"
  by (simp_all add: world0_def Scene_new_def)

section \<open>Sprite ids\<close>

lemma ids_from_Suc: "ids_from k (Suc n) = Some (Num k) # ids_from (k + 1) n"
proof -
  have "[0..<Suc n] = 0 # map Suc [0..<n]"
    by (simp only: map_Suc_upt upt_conv_Cons [of 0 "Suc n"] zero_less_Suc)
  then have "ids_from k (Suc n) = map (\<lambda>i. Some (Num (k + int i))) (0 # map Suc [0..<n])"
    by (simp only: ids_from_def)
  also have "\<dots> = Some (Num k) # ids_from (k + 1) n"
    by (simp add: ids_from_def comp_def ac_simps)
  finally show ?thesis .
qed

lemma run_ops_counter:
  "allSprites (scn w) \<noteq> None \<Longrightarrow> spriteNextId (scn w) = Some (Num k) \<Longrightarrow>
   \<exists>w'. run_ops ops w = Inr (ids_from k (count_adds ops), w')"
proof (induction ops arbitrary: w k)
  case Nil
  then show ?case by (simp add: ids_from_def)
next
  case (Cons a ops)
  show ?case
  proof (cases a)
    case (AddSprite r)
    from Cons.prems obtain xs where xs: "allSprites (scn w) = Some xs" by auto
    define w1 where "w1 = w\<lparr>scn := (scn w)\<lparr>allSprites := Some (xs @ [r]),
                                   spriteNextId := Some (Num (k + 1))\<rparr>,
                    heap := (heap w)(r := (heap w r)\<lparr>sprite_id := Some (Num k)\<rparr>)\<rparr>"
    have a: "addSprite r w = Inr w1"
      using xs Cons.prems(2) by (simp add: addSprite_def w1_def)
    have "allSprites (scn w1) \<noteq> None" "spriteNextId (scn w1) = Some (Num (k + 1))"
      by (simp_all add: w1_def)
    from Cons.IH [OF this] obtain w' where
      "run_ops ops w1 = Inr (ids_from (k + 1) (count_adds ops), w')" by blast
    moreover have "sprite_id (heap w1 r) = Some (Num k)" by (simp add: w1_def)
    ultimately show ?thesis
      using a AddSprite by (simp add: ids_from_Suc)
  next
    case (EditSprites f)
    have "allSprites (scn (edit_sprites f w)) \<noteq> None"
         "spriteNextId (scn (edit_sprites f w)) = Some (Num k)"
      using Cons.prems by (auto simp: edit_sprites_def)
    from Cons.IH [OF this] show ?thesis using EditSprites by simp
  qed
qed

lemma init_fresh_fields:
  assumes "allSprites (scn w0) = None" and "init [] w0 = Inr w"
  shows "allSprites (scn w) = Some [] \<and> spriteNextId (scn w) = Some (Num 0)"
proof (cases "eventContext (scn w0)")
  case None
  with assms show ?thesis by (simp add: init_no_context)
next
  case (Some ec)
  from init_fresh [OF assms(1) Some, of "[]"] assms(2) show ?thesis by auto
qed

lemma distinct_ids_from: "distinct (ids_from k n)"
  by (simp add: ids_from_def distinct_map inj_on_def)

lemma nth_ids_from: "i < n \<Longrightarrow> ids_from k n ! i = Some (Num (k + int i))"
  by (simp add: ids_from_def)

text \<open>
  C1. On a scene that \<open>init()\<close> has just initialised (no extension initializer registered),
  whatever sequence of \<open>addSprite\<close> calls and outside edits of \<open>allSprites\<close> follows, every
  call succeeds and the ids assigned are 0, 1, 2, ... in call order: the n-th call
  (counting from 0) assigns id n, whether or not sprites were removed in between, and
  no id is assigned twice.
\<close>

theorem addSprite_ids_sequential:
  assumes "allSprites (scn w0) = None" and "init [] w0 = Inr w"
  shows "\<exists>w'. run_ops ops w = Inr (ids_from 0 (count_adds ops), w') \<and>
              distinct (ids_from 0 (count_adds ops)) \<and>
              (\<forall>n < count_adds ops. ids_from 0 (count_adds ops) ! n = Some (Num (int n)))"
proof -
  from init_fresh_fields [OF assms]
  have "allSprites (scn w) \<noteq> None" "spriteNextId (scn w) = Some (Num 0)" by simp_all
  from run_ops_counter [OF this] obtain w' where
    "run_ops ops w = Inr (ids_from 0 (count_adds ops), w')" by blast
  moreover have "distinct (ids_from 0 (count_adds ops))"
    by (rule distinct_ids_from)
  moreover have "\<forall>n < count_adds ops. ids_from 0 (count_adds ops) ! n = Some (Num (int n))"
    by (simp add: nth_ids_from)
  ultimately show ?thesis by blast
qed

theorem addSprite_ids_sequential_witness:
  "\<exists>w w'. init [] world0 = Inr w \<and>
          run_ops [AddSprite 0, AddSprite 1, EditSprites (remove1 0), AddSprite 2] w =
            Inr ([Some (Num 0), Some (Num 1), Some (Num 2)], w')"
proof -
  obtain w where w: "init [] world0 = Inr w"
    using init_fresh [OF world0_fresh, of "[]"] by simp
  from addSprite_ids_sequential [OF world0_fresh(1) w,
         of "[AddSprite 0, AddSprite 1, EditSprites (remove1 0), AddSprite 2]"]
  obtain w' where
    "run_ops [AddSprite 0, AddSprite 1, EditSprites (remove1 0), AddSprite 2] w =
       Inr (ids_from 0 (Suc (Suc (Suc 0))), w')"
    by auto
  then have "run_ops [AddSprite 0, AddSprite 1, EditSprites (remove1 0), AddSprite 2] w =
       Inr ([Some (Num 0), Some (Num 1), Some (Num 2)], w')"
    by (simp add: ids_from_def)
  with w show ?thesis by blast
qed

section \<open>Frame handlers registered by init\<close>

lemma mset_insert_callback: "mset (insert_callback c cs) = add_mset c (mset cs)"
  by (induction cs) auto

lemma set_insert_callback: "set (insert_callback c cs) = insert c (set cs)"
  by (induction cs) auto

lemma sorted_insert_callback:
  "sorted (map fc_order cs) \<Longrightarrow> sorted (map fc_order (insert_callback c cs))"
  by (induction cs) (auto simp: set_insert_callback)

lemma registerFrameHandler_callbacks:
  "mset (frameCallbacks (registerFrameHandler p h ec)) =
     add_mset \<lparr>fc_order = p, fc_handler = h\<rparr> (mset (frameCallbacks ec))"
  "sorted (map fc_order (frameCallbacks ec)) \<Longrightarrow>
     sorted (map fc_order (frameCallbacks (registerFrameHandler p h ec)))"
  by (simp_all add: registerFrameHandler_def mset_insert_callback sorted_insert_callback)

lemma registered_by_init_mset:
  "mset (frameCallbacks (registered_by_init ec)) = mset (frameCallbacks ec) + mset init_callbacks"
  by (simp add: registered_by_init_def registerFrameHandler_callbacks(1) init_callbacks_def)

lemma registered_by_init_sorted:
  "sorted (map fc_order (frameCallbacks ec)) \<Longrightarrow>
   sorted (map fc_order (frameCallbacks (registered_by_init ec)))"
  unfolding registered_by_init_def
  by (intro registerFrameHandler_callbacks(2))

lemma registered_by_init_empty:
  "frameCallbacks ec = [] \<Longrightarrow> frameCallbacks (registered_by_init ec) = init_callbacks"
  by (simp add: registered_by_init_def registerFrameHandler_def init_callbacks_def priority_defs)

lemma follow_not_registered: "FOLLOW_SPRITE_PRIORITY \<notin> fc_order ` set init_callbacks"
  by (simp add: init_callbacks_def priority_defs)

text \<open>
  C2 (as amended). \<open>init()\<close> on a scene not yet initialised registers exactly six frame
  handlers, at the priorities 8, 13, 15, 90, 150 and 200: controller state, controller
  sprite movement, physics, sprite render, diagnostics and screen flush. It registers
  nothing at the camera-follow priority 14 (in the source that slot is a comment, as
  the slots 19 and 20 are). The registry stays in ascending priority order, and a tick
  runs it front to back, so on a context without other callbacks the six handlers fire
  in exactly the order listed.
\<close>

theorem init_registers_fixed_handlers:
  assumes "allSprites (scn w) = None" and "eventContext (scn w) = Some ec"
    and "sorted (map fc_order (frameCallbacks ec))"
  shows "\<exists>w' ec'. init [] w = Inr w' \<and> eventContext (scn w') = Some ec' \<and>
           mset (frameCallbacks ec') = mset (frameCallbacks ec) + mset init_callbacks \<and>
           map fc_order init_callbacks = [8, 13, 15, 90, 150, 200] \<and>
           sorted (map fc_order (frameCallbacks ec')) \<and>
           (frameCallbacks ec = [] \<longrightarrow> frameCallbacks ec' = init_callbacks) \<and>
           tick ext w' = run_callbacks ext (frameCallbacks ec') w'"
proof -
  define w' where "w' = w\<lparr>trace := trace w @ [PowerPoke],
              scn := (scn w)\<lparr>allSprites := Some [], spriteNextId := Some (Num 0),
                              eventContext := Some (registered_by_init ec)\<rparr>\<rparr>"
  have i: "init [] w = Inr w'"
    using init_fresh [OF assms(1,2), of "[]"] by (simp add: w'_def)
  have e: "eventContext (scn w') = Some (registered_by_init ec)"
    by (simp add: w'_def)
  have p: "map fc_order init_callbacks = [8, 13, 15, 90, 150, 200]"
    by (simp add: init_callbacks_def priority_defs)
  have t: "tick ext w' = run_callbacks ext (frameCallbacks (registered_by_init ec)) w'"
    by (simp add: tick_def e)
  show ?thesis
    by (rule exI [of _ w'], rule exI [of _ "registered_by_init ec"])
       (simp add: i e p t registered_by_init_mset registered_by_init_sorted [OF assms(3)]
          registered_by_init_empty)
qed

theorem init_registers_fixed_handlers_witness:
  "\<exists>w'. init [] world0 = Inr w' \<and>
        registered_priorities (Inr w') = [8, 13, 15, 90, 150, 200] \<and>
        tick no_extension w' = run_callbacks no_extension init_callbacks w'"
proof -
  have s: "sorted (map fc_order (frameCallbacks ec0))" "frameCallbacks ec0 = []"
    by (simp_all add: ec0_def)
  from init_registers_fixed_handlers [OF world0_fresh s(1), of no_extension]
  obtain w' ec' where a: "init [] world0 = Inr w'" "eventContext (scn w') = Some ec'"
    "map fc_order init_callbacks = [8, 13, 15, 90, 150, 200]"
    "frameCallbacks ec0 = [] \<longrightarrow> frameCallbacks ec' = init_callbacks"
    "tick no_extension w' = run_callbacks no_extension (frameCallbacks ec') w'"
    by (elim exE conjE) (rule that, assumption+)
  from a(4) s(2) have c: "frameCallbacks ec' = init_callbacks" by simp
  have "registered_priorities (Inr w') = [8, 13, 15, 90, 150, 200]"
    by (simp add: registered_priorities_def a(2) c a(3))
  with a(1) a(5) c show ?thesis by auto
qed

text \<open>
  The claim as stated fails: after \<open>init()\<close> on a freshly constructed scene no handler
  is registered at priority 14.
\<close>

theorem init_follow_priority_counterexample:
  "registered_priorities (init [] world0) = [8, 13, 15, 90, 150, 200] \<and>
   FOLLOW_SPRITE_PRIORITY \<notin> set (registered_priorities (init [] world0))"
proof -
  have "registered_priorities (init [] world0) = map fc_order init_callbacks"
    using init_fresh [OF world0_fresh, of "[]"]
    by (simp add: registered_priorities_def registered_by_init_empty ec0_def)
  then show ?thesis
    by (simp add: init_callbacks_def priority_defs)
qed

section \<open>Lifecycle\<close>

lemma run_initializers_keeps:
  "\<forall>f\<in>set fs. keeps_sprites f \<Longrightarrow> allSprites (scn w) \<noteq> None \<Longrightarrow>
   run_initializers fs w = Inr w' \<Longrightarrow> allSprites (scn w') \<noteq> None"
proof (induction fs arbitrary: w)
  case Nil
  then show ?case by simp
next
  case (Cons f fs)
  from Cons.prems(3) obtain w1 where f: "f w = Inr w1" and r: "run_initializers fs w1 = Inr w'"
    by (cases "f w") auto
  from Cons.prems(1,2) f have "allSprites (scn w1) \<noteq> None"
    unfolding keeps_sprites_def by (metis list.set_intros(1))
  with Cons.IH [of w1] Cons.prems(1) r show ?case by simp
qed

lemma init_establishes_sprites:
  assumes "\<forall>f\<in>set inits. keeps_sprites f" and "init inits w = Inr w'"
  shows "allSprites (scn w') \<noteq> None"
proof (cases "allSprites (scn w)")
  case (Some xs)
  with assms(2) show ?thesis by (simp add: init_def)
next
  case None
  show ?thesis
  proof (cases "eventContext (scn w)")
    case Nonec: None
    with None assms(2) show ?thesis by (simp add: init_no_context)
  next
    case (Some ec)
    from init_fresh [OF None Some, of inits] assms(2)
    have "run_initializers inits
           (w\<lparr>trace := trace w @ [PowerPoke],
              scn := (scn w)\<lparr>allSprites := Some [], spriteNextId := Some (Num 0),
                              eventContext := Some (registered_by_init ec)\<rparr>\<rparr>) = Inr w'"
      by simp
    from run_initializers_keeps [OF assms(1) _ this] show ?thesis by simp
  qed
qed

lemma keeps_sprites_follow_initializer: "keeps_sprites follow_initializer"
  unfolding keeps_sprites_def follow_initializer_def
  by (auto simp: scene_register_def addSprite_def Let_def split: option.splits)

text \<open>
  C5. \<open>init()\<close> is idempotent: once \<open>init()\<close> has returned on a scene (its extension
  initializers leaving the sprite list in place), a second call finds \<open>allSprites\<close>
  defined and returns at once: the world, and with it every field of the scene and the
  handler registry, is what it was.
\<close>

theorem init_idempotent:
  assumes "\<forall>f\<in>set inits. keeps_sprites f" and "init inits w = Inr w'"
  shows "allSprites (scn w') \<noteq> None \<and> init inits w' = Inr w'"
proof -
  from init_establishes_sprites [OF assms] have "allSprites (scn w') \<noteq> None" .
  then show ?thesis by (simp add: init_initialised)
qed

theorem init_idempotent_witness:
  "\<exists>w'. init [follow_initializer] world0 = Inr w' \<and> init [follow_initializer] w' = Inr w' \<and>
        allSprites (scn w') = Some [7] \<and>
        registered_priorities (Inr w') = [8, 13, 14, 15, 90, 150, 200]"
proof -
  have k: "\<forall>f\<in>set [follow_initializer]. keeps_sprites f"
    by (simp add: keeps_sprites_follow_initializer)
  obtain w' where w': "init [follow_initializer] world0 = Inr w'"
    and s: "allSprites (scn w') = Some [7]"
    and p: "registered_priorities (Inr w') = [8, 13, 14, 15, 90, 150, 200]"
    using init_fresh [OF world0_fresh, of "[follow_initializer]"]
    by (simp add: follow_initializer_def scene_register_def addSprite_def
          registered_priorities_def registered_by_init_def registerFrameHandler_def
          ec0_def priority_defs)
  from init_idempotent [OF k w'] w' s p show ?thesis by blast
qed

text \<open>
  C6. \<open>destroy()\<close> assigns \<open>undefined\<close> to fifteen fields, and leaves the others as they
  were: on a scene that was only constructed, \<open>overlapMap\<close> and \<open>controlledSprites\<close>
  still hold the objects that the constructor created after \<open>destroy()\<close>.
\<close>

theorem destroy_leaves_overlapMap:
  "overlapMap (scn (destroy world0)) = Some [] \<and>
   controlledSprites (scn (destroy world0)) = Some [] \<and>
   overlapHandlers (scn (destroy world0)) = None"
  by (simp add: destroy_def world0_def Scene_new_def)

lemma destroy_released:
  "eventContext (scn (destroy w)) = None \<and> background (scn (destroy w)) = None \<and>
   tileMap (scn (destroy w)) = None \<and> allSprites (scn (destroy w)) = None \<and>
   spriteNextId (scn (destroy w)) = None \<and> spritesByKind (scn (destroy w)) = None \<and>
   physicsEngine (scn (destroy w)) = None \<and> camera (scn (destroy w)) = None \<and>
   flags (scn (destroy w)) = None \<and> destroyedHandlers (scn (destroy w)) = None \<and>
   createdHandlers (scn (destroy w)) = None \<and> overlapHandlers (scn (destroy w)) = None \<and>
   collisionHandlers (scn (destroy w)) = None \<and> gameForeverHandlers (scn (destroy w)) = None \<and>
   u_data (scn (destroy w)) = None"
  by (simp add: destroy_def)

lemma destroy_kept:
  "overlapMap (scn (destroy w)) = overlapMap (scn w) \<and>
   particleSources (scn (destroy w)) = particleSources (scn w) \<and>
   controlledSprites (scn (destroy w)) = controlledSprites (scn w) \<and>
   followingSprites (scn (destroy w)) = followingSprites (scn w) \<and>
   u_millis (scn (destroy w)) = u_millis (scn w) \<and>
   cachedRender (scn (destroy w)) = cachedRender (scn w)"
  by (simp add: destroy_def)

lemma addSprite_total_iff: "(\<exists>w'. addSprite r w = Inr w') = (allSprites (scn w) \<noteq> None)"
  by (auto simp: addSprite_def Let_def split: option.splits)

lemma addSprite_keeps_sprites:
  "addSprite r w = Inr w' \<Longrightarrow> allSprites (scn w') \<noteq> None"
  by (auto simp: addSprite_def Let_def split: option.splits)

lemma renderCore_no_sprites:
  "allSprites (scn w) = None \<Longrightarrow> renderCore w = Inl TypeError"
  by (auto simp: renderCore_def Let_def log_call_def paint_def bindE_def
           split: option.splits sum.splits)

lemma render_constructed:
  "cachedRender (scn w) = None \<Longrightarrow> allSprites (scn w) = None \<Longrightarrow> render w = Inl TypeError"
  by (simp add: render_def renderCore_no_sprites)

text \<open>
  C10. The constructor leaves \<open>allSprites\<close> and \<open>spriteNextId\<close> undefined, so on a scene
  that was constructed and not initialised \<open>addSprite\<close> raises, and so does \<open>render\<close>.
  \<open>addSprite\<close> returns exactly when \<open>allSprites\<close> is defined: it does after \<open>init()\<close>
  and after every further \<open>addSprite\<close>, and it raises again after \<open>destroy()\<close>.
\<close>

theorem addSprite_needs_init:
  "addSprite r (w\<lparr>scn := Scene_new ec\<rparr>) = Inl TypeError \<and>
   render (w\<lparr>scn := Scene_new ec\<rparr>) = Inl TypeError \<and>
   ((\<exists>w'. addSprite r w = Inr w') = (allSprites (scn w) \<noteq> None)) \<and>
   (init [] (w\<lparr>scn := Scene_new ec\<rparr>) = Inr wi \<longrightarrow>
      (\<exists>w2. addSprite r wi = Inr w2 \<and> (\<exists>w3. addSprite s w2 = Inr w3))) \<and>
   addSprite r (destroy w) = Inl TypeError"
proof -
  have a: "addSprite r (w\<lparr>scn := Scene_new ec\<rparr>) = Inl TypeError"
    by (simp add: addSprite_def Scene_new_def)
  have b: "render (w\<lparr>scn := Scene_new ec\<rparr>) = Inl TypeError"
    by (rule render_constructed) (simp_all add: Scene_new_def)
  have c: "init [] (w\<lparr>scn := Scene_new ec\<rparr>) = Inr wi \<longrightarrow>
      (\<exists>w2. addSprite r wi = Inr w2 \<and> (\<exists>w3. addSprite s w2 = Inr w3))"
  proof
    assume "init [] (w\<lparr>scn := Scene_new ec\<rparr>) = Inr wi"
    then have "allSprites (scn wi) \<noteq> None"
      using init_establishes_sprites [of "[]"] by simp
    then obtain w2 where w2: "addSprite r wi = Inr w2"
      using addSprite_total_iff by blast
    then have "allSprites (scn w2) \<noteq> None" by (rule addSprite_keeps_sprites)
    then obtain w3 where "addSprite s w2 = Inr w3"
      using addSprite_total_iff by blast
    with w2 show "\<exists>w2. addSprite r wi = Inr w2 \<and> (\<exists>w3. addSprite s w2 = Inr w3)" by blast
  qed
  have d: "addSprite r (destroy w) = Inl TypeError"
    by (simp add: addSprite_def destroy_def)
  from a b c d addSprite_total_iff [of r w] show ?thesis by blast
qed

theorem addSprite_needs_init_witness:
  "addSprite 3 world0 = Inl TypeError \<and> render world0 = Inl TypeError \<and>
   (\<exists>w1 w2 w3. init [] world0 = Inr w1 \<and> addSprite 3 w1 = Inr w2 \<and> addSprite 4 w2 = Inr w3
               \<and> addSprite 5 (destroy w3) = Inl TypeError)"
proof -
  have e: "world0\<lparr>scn := Scene_new ec0\<rparr> = world0" by (simp add: world0_def)
  obtain w1 where w1: "init [] world0 = Inr w1"
    using init_fresh [OF world0_fresh, of "[]"] by simp
  from addSprite_needs_init [where r = 3 and w = world0 and ec = ec0 and wi = w1 and s = 4] e w1
  obtain w2 w3 where "addSprite 3 world0 = Inl TypeError" "render world0 = Inl TypeError"
    "addSprite 3 w1 = Inr w2" "addSprite 4 w2 = Inr w3"
    by auto
  moreover from addSprite_needs_init [where r = 5 and w = w3]
  have "addSprite 5 (destroy w3) = Inl TypeError" by blast
  ultimately show ?thesis using w1 by blast
qed

section \<open>Rendering\<close>

lemma bindE_eq_Inr: "bindE m f = Inr y \<Longrightarrow> \<exists>x. m = Inr x \<and> f x = Inr y"
  by (cases m) auto

lemma set_insert_sorted: "set (insert_sorted cmp x ys) = insert x (set ys)"
  by (induction ys) auto

lemma mset_insert_sorted: "mset (insert_sorted cmp x ys) = add_mset x (mset ys)"
  by (induction ys) auto

lemma sorted_insert_sorted:
  fixes k :: "'a \<Rightarrow> 'b::linorder"
  assumes "\<forall>y\<in>set ys. positive (cmp x y) = (k y < k x)" and "sorted (map k ys)"
  shows "sorted (map k (insert_sorted cmp x ys))"
  using assms
proof (induction ys)
  case Nil
  then show ?case by simp
next
  case (Cons y ys)
  show ?case
  proof (cases "positive (cmp x y)")
    case True
    with Cons.prems have "k y < k x" by simp
    moreover from Cons have "sorted (map k (insert_sorted cmp x ys))" by simp
    ultimately show ?thesis
      using True Cons.prems(2) by (auto simp: set_insert_sorted)
  next
    case False
    with Cons.prems have "k x \<le> k y" by auto
    with False Cons.prems(2) show ?thesis by auto
  qed
qed

lemma mset_array_sort: "mset (array_sort cmp xs) = mset xs"
  by (induction xs) (simp_all add: array_sort_def mset_insert_sorted)

lemma set_array_sort: "set (array_sort cmp xs) = set xs"
  by (metis mset_array_sort set_mset_mset)

lemma sorted_array_sort:
  fixes k :: "'a \<Rightarrow> 'b::linorder"
  assumes "\<forall>a\<in>set xs. \<forall>b\<in>set xs. positive (cmp a b) = (k b < k a)"
  shows "sorted (map k (array_sort cmp xs))"
  using assms
proof (induction xs)
  case Nil
  then show ?case by (simp add: array_sort_def)
next
  case (Cons x xs)
  have s: "array_sort cmp (x # xs) = insert_sorted cmp x (array_sort cmp xs)"
    by (simp add: array_sort_def)
  from Cons have "sorted (map k (array_sort cmp xs))" by simp
  moreover from Cons.prems
  have "\<forall>y\<in>set (array_sort cmp xs). positive (cmp x y) = (k y < k x)"
    by (simp add: set_array_sort)
  ultimately show ?case
    unfolding s by (intro sorted_insert_sorted)
qed

lemma sprite_compare_key:
  "numeric_id a \<Longrightarrow> numeric_id b \<Longrightarrow> positive (sprite_compare a b) = (sort_key b < sort_key a)"
  by (auto simp: sprite_compare_def sort_key_def Let_def less_prod_def
           split: option.splits jsnum.splits)

lemma draw_sprites_fields:
  "screen (draw_sprites xs w) = screen w @ map DrawSprite xs"
  "scn (draw_sprites xs w) = scn w"
  "images (draw_sprites xs w) = images w"
  "heap (draw_sprites xs w) = heap w"
  by (induction xs arbitrary: w) (simp_all add: draw_sprites_def paint_def)

text \<open>The order in which \<open>renderCore\<close> leaves and draws the sprite list.\<close>

lemma renderCore_result:
  assumes "background (scn w) \<noteq> None" and "allSprites (scn w) = Some xs"
    and "ys = (if js_and (flags (scn w)) NeedsSorting \<noteq> 0
               then array_sort (\<lambda>a b. sprite_compare (heap w a) (heap w b)) xs else xs)"
  shows "\<exists>w'. renderCore w = Inr w' \<and> screen w' = screen w @ DrawBackground # map DrawSprite ys \<and>
              scn w' = (scn w)\<lparr>allSprites := Some ys\<rparr> \<and> images w' = images w \<and> heap w' = heap w"
  using assms
  by (auto simp: renderCore_def Let_def log_call_def paint_def draw_sprites_fields)

lemma handle_RenderDiagnostics_fields:
  assumes "handle_RenderDiagnostics w = Inr w'"
  shows "flags (scn w') = Some 0" and "cachedRender (scn w') = cachedRender (scn w)"
    and "allSprites (scn w') = allSprites (scn w)"
  using assms
  by (auto simp: handle_RenderDiagnostics_def Let_def log_call_def paint_def
           split: if_splits option.splits)

lemma handle_RenderSprites_fields:
  assumes "handle_RenderSprites w = Inr w'"
  shows "cachedRender (scn w') = None" and "background (scn w') \<noteq> None"
    and "allSprites (scn w') \<noteq> None" and "images w' = images w"
proof -
  let ?v = "(log_call (EnablePerfCounter ''sprite_draw'') w)
              \<lparr>scn := (scn (log_call (EnablePerfCounter ''sprite_draw'') w))\<lparr>cachedRender := None\<rparr>\<rparr>"
  from assms have r: "renderCore ?v = Inr w'"
    by (simp add: handle_RenderSprites_def Let_def)
  have b: "background (scn ?v) \<noteq> None"
    using r by (auto simp: renderCore_def Let_def log_call_def split: option.splits)
  obtain xs where xs: "allSprites (scn ?v) = Some xs"
    using r renderCore_no_sprites [of ?v] by (cases "allSprites (scn ?v)") auto
  from renderCore_result [OF b xs refl] r
  have "scn w' = (scn ?v)\<lparr>allSprites := Some (if js_and (flags (scn ?v)) NeedsSorting \<noteq> 0
               then array_sort (\<lambda>a b. sprite_compare (heap ?v a) (heap ?v b)) xs else xs)\<rparr>"
    and i: "images w' = images ?v"
    by auto
  then have "cachedRender (scn w') = None" "allSprites (scn w') \<noteq> None"
    "background (scn w') = background (scn ?v)"
    by (simp_all add: log_call_def)
  with b i show "cachedRender (scn w') = None" "background (scn w') \<noteq> None"
    "allSprites (scn w') \<noteq> None" "images w' = images w"
    by (simp_all add: log_call_def)
qed

lemma tick_init_callbacks_end:
  assumes "eventContext (scn w) = Some ec" and "frameCallbacks ec = init_callbacks"
    and "tick ext w = Inr w'"
  shows "flags (scn w') = Some 0 \<and> cachedRender (scn w') = None"
proof -
  from assms have "run_callbacks ext init_callbacks w = Inr w'"
    by (simp add: tick_def)
  then obtain w1 w2 w3 w4 w5 where
    "handle_RenderSprites w3 = Inr w4" "handle_RenderDiagnostics w4 = Inr w5"
    "w' = log_call ScreenFlush w5"
    by (auto simp: init_callbacks_def dest!: bindE_eq_Inr)
  then show ?thesis
    using handle_RenderSprites_fields(1) [of w3 w4] handle_RenderDiagnostics_fields(1,2) [of w4 w5]
    by (simp add: log_call_def)
qed

lemma two_sprites_value:
  "two_sprites = Inr (world0\<lparr>trace := [PowerPoke],
      heap := heap0(0 := \<lparr>sprite_z = 5, sprite_id = Some (Num 0)\<rparr>,
                    1 := \<lparr>sprite_z = 1, sprite_id = Some (Num 1)\<rparr>),
      scn := (Scene_new ec0)\<lparr>allSprites := Some [0, 1], spriteNextId := Some (Num 2),
               eventContext := Some (ec0\<lparr>frameCallbacks := init_callbacks\<rparr>)\<rparr>\<rparr>)"
proof -
  have "registered_by_init ec0 = ec0\<lparr>frameCallbacks := init_callbacks\<rparr>"
    by (simp add: registered_by_init_def registerFrameHandler_def init_callbacks_def
          ec0_def priority_defs)
  then show ?thesis
    using init_fresh [OF world0_fresh, of "[]"]
    by (simp add: two_sprites_def addSprite_def world0_def heap0_def)
qed


lemmas handler_defs =
  handle_ControllerState_def handle_PhysicsStep_def handle_RenderSprites_def
  handle_RenderDiagnostics_def renderCore_def update_sprites_def draw_sprites_def
  log_call_def paint_def

lemma sorted_frame_value:
  "\<exists>w. sorted_frame = Inr w \<and> allSprites (scn w) = Some [1, 0] \<and> flags (scn w) = Some 0 \<and>
       background (scn w) = Some (NewBackground NewCamera) \<and>
       screen w = [DrawBackground, DrawSprite 1, DrawSprite 0, DrawConsoleOverlay]"
  by (simp add: sorted_frame_def two_sprites_value tick_def request_sort_def init_callbacks_def
        handler_defs Let_def Scene_new_def world0_def no_extension_def NeedsSorting_def
        array_sort_def sprite_compare_def)

text \<open>
  The claim as stated fails in the frame after a sort: the flag is clear, sprite 0 was
  registered before sprite 1, and the draw sequence draws sprite 1 first.
\<close>

theorem draw_order_counterexample:
  "sprite_list two_sprites = Inr (Some [0, 1]) \<and>
   sorting_flag sorted_frame = Inr 0 \<and>
   next_draw sorted_frame = Inr [DrawBackground, DrawSprite 1, DrawSprite 0]"
proof -
  from sorted_frame_value obtain w where w: "sorted_frame = Inr w"
    "allSprites (scn w) = Some [1, 0]" "flags (scn w) = Some 0"
    "background (scn w) = Some (NewBackground NewCamera)"
    by blast
  have "sprite_list two_sprites = Inr (Some [0, 1])"
    by (simp add: sprite_list_def two_sprites_value)
  moreover have "sorting_flag sorted_frame = Inr 0"
    by (simp add: sorting_flag_def w)
  moreover have "next_draw sorted_frame = Inr [DrawBackground, DrawSprite 1, DrawSprite 0]"
    by (simp add: next_draw_def w handler_defs Let_def)
  ultimately show ?thesis by blast
qed


lemma addSprite_appends:
  "allSprites (scn w) = Some xs \<Longrightarrow> addSprite r w = Inr w1 \<Longrightarrow>
   allSprites (scn w1) = Some (xs @ [r])"
  by (auto simp: addSprite_def Let_def)

lemma flags_until_physics:
  "handle_ControllerState w = Inr wc \<Longrightarrow>
   flags (scn (log_call ControllerMoveSprites wc)) = flags (scn w)"
  by (auto simp: handle_ControllerState_def Let_def log_call_def split: option.splits)

text \<open>
  C4 (as amended). The core draw sequence draws the background and then every sprite of
  \<open>allSprites\<close>. If \<open>NeedsSorting\<close> is not set, the sprites are drawn in the order in
  which \<open>allSprites\<close> holds them at that moment, and the array is left as it is;
  \<open>addSprite\<close> appends, so this is registration order until a sort has reordered the
  array. If the flag is set, \<open>allSprites\<close> is first sorted in place, and the sprites
  (their ids being numbers) are drawn in ascending z order, ties broken by ascending id.
  The diagnostics handler of the frame sets \<open>flags\<close> to 0, so that after a tick of the
  handlers of \<open>init()\<close> the flags are clear, and they still are when the controller
  handlers of the next tick have run and its physics phase starts.
\<close>

theorem renderCore_draw_order:
  assumes "background (scn w) \<noteq> None" and "allSprites (scn w) = Some xs"
  shows "\<exists>w' ys. renderCore w = Inr w' \<and> allSprites (scn w') = Some ys \<and>
           screen w' = screen w @ DrawBackground # map DrawSprite ys \<and>
           (js_and (flags (scn w)) NeedsSorting = 0 \<longrightarrow> ys = xs) \<and>
           (js_and (flags (scn w)) NeedsSorting \<noteq> 0 \<longrightarrow>
              mset ys = mset xs \<and>
              ((\<forall>r\<in>set xs. numeric_id (heap w r)) \<longrightarrow> sorted (map (\<lambda>r. sort_key (heap w r)) ys))) \<and>
           (\<forall>r w1. addSprite r w = Inr w1 \<longrightarrow> allSprites (scn w1) = Some (xs @ [r])) \<and>
           (\<forall>wd. handle_RenderDiagnostics w' = Inr wd \<longrightarrow> flags (scn wd) = Some 0) \<and>
           (\<forall>ext ec wt wc. eventContext (scn w) = Some ec \<longrightarrow> frameCallbacks ec = init_callbacks \<longrightarrow>
              tick ext w = Inr wt \<longrightarrow> handle_ControllerState wt = Inr wc \<longrightarrow>
              flags (scn wt) = Some 0 \<and> flags (scn (log_call ControllerMoveSprites wc)) = Some 0)"
proof -
  define ys where "ys = (if js_and (flags (scn w)) NeedsSorting \<noteq> 0
               then array_sort (\<lambda>a b. sprite_compare (heap w a) (heap w b)) xs else xs)"
  from renderCore_result [OF assms ys_def] obtain w' where
    r: "renderCore w = Inr w'" and s: "screen w' = screen w @ DrawBackground # map DrawSprite ys"
    and c: "scn w' = (scn w)\<lparr>allSprites := Some ys\<rparr>"
    by blast
  from c have a: "allSprites (scn w') = Some ys" by simp
  have u: "js_and (flags (scn w)) NeedsSorting = 0 \<longrightarrow> ys = xs"
    by (simp add: ys_def)
  have m: "js_and (flags (scn w)) NeedsSorting \<noteq> 0 \<longrightarrow> mset ys = mset xs"
    by (simp add: ys_def mset_array_sort)
  have k: "js_and (flags (scn w)) NeedsSorting \<noteq> 0 \<longrightarrow>
      (\<forall>r\<in>set xs. numeric_id (heap w r)) \<longrightarrow> sorted (map (\<lambda>r. sort_key (heap w r)) ys)"
  proof (intro impI)
    assume f: "js_and (flags (scn w)) NeedsSorting \<noteq> 0"
      and n: "\<forall>r\<in>set xs. numeric_id (heap w r)"
    have "\<forall>a\<in>set xs. \<forall>b\<in>set xs.
            positive (sprite_compare (heap w a) (heap w b)) = (sort_key (heap w b) < sort_key (heap w a))"
      using n sprite_compare_key by blast
    then have "sorted (map (\<lambda>r. sort_key (heap w r))
                 (array_sort (\<lambda>a b. sprite_compare (heap w a) (heap w b)) xs))"
      by (rule sorted_array_sort)
    with f show "sorted (map (\<lambda>r. sort_key (heap w r)) ys)" by (simp add: ys_def)
  qed
  have i: "\<forall>r w1. addSprite r w = Inr w1 \<longrightarrow> allSprites (scn w1) = Some (xs @ [r])"
    using addSprite_appends [OF assms(2)] by blast
  have d: "\<forall>wd. handle_RenderDiagnostics w' = Inr wd \<longrightarrow> flags (scn wd) = Some 0"
    using handle_RenderDiagnostics_fields(1) by blast
  have t: "\<forall>ext ec wt wc. eventContext (scn w) = Some ec \<longrightarrow> frameCallbacks ec = init_callbacks \<longrightarrow>
              tick ext w = Inr wt \<longrightarrow> handle_ControllerState wt = Inr wc \<longrightarrow>
              flags (scn wt) = Some 0 \<and> flags (scn (log_call ControllerMoveSprites wc)) = Some 0"
    using tick_init_callbacks_end flags_until_physics by metis
  show ?thesis
    by (rule exI [of _ w'], rule exI [of _ ys]) (intro conjI r a s u d i t, use m k in blast)
qed


lemma handle_RenderDiagnostics_total:
  "allSprites (scn w) \<noteq> None \<Longrightarrow> physicsEngine (scn w) \<noteq> None \<Longrightarrow>
   \<exists>w'. handle_RenderDiagnostics w = Inr w'"
  by (auto simp: handle_RenderDiagnostics_def Let_def log_call_def paint_def)

theorem renderCore_draw_order_witness:
  "\<exists>w w' wd. two_sprites = Inr w \<and> renderCore (request_sort w) = Inr w' \<and>
     js_and (flags (scn (request_sort w))) NeedsSorting \<noteq> 0 \<and>
     allSprites (scn w') = Some [1, 0] \<and>
     screen w' = [DrawBackground, DrawSprite 1, DrawSprite 0] \<and>
     sorted (map (\<lambda>r. sort_key (heap (request_sort w) r)) [1, 0]) \<and>
     handle_RenderDiagnostics w' = Inr wd \<and> flags (scn wd) = Some 0"
proof -
  from two_sprites_value obtain w where w: "two_sprites = Inr w"
    and w_def: "w = world0\<lparr>trace := [PowerPoke],
      heap := heap0(0 := \<lparr>sprite_z = 5, sprite_id = Some (Num 0)\<rparr>,
                    1 := \<lparr>sprite_z = 1, sprite_id = Some (Num 1)\<rparr>),
      scn := (Scene_new ec0)\<lparr>allSprites := Some [0, 1], spriteNextId := Some (Num 2),
               eventContext := Some (ec0\<lparr>frameCallbacks := init_callbacks\<rparr>)\<rparr>\<rparr>"
    by simp
  let ?v = "request_sort w"
  have h1: "background (scn ?v) \<noteq> None" and h2: "allSprites (scn ?v) = Some [0, 1]"
    by (simp_all add: w_def request_sort_def Scene_new_def)
  have f: "js_and (flags (scn ?v)) NeedsSorting \<noteq> 0"
    by (simp add: w_def request_sort_def Scene_new_def NeedsSorting_def)
  have n: "\<forall>r\<in>set [0, 1]. numeric_id (heap ?v r)"
    by (simp add: w_def request_sort_def)
  from renderCore_draw_order [OF h1 h2] obtain w' ys where
    r: "renderCore ?v = Inr w'" and a: "allSprites (scn w') = Some ys"
    and s: "screen w' = screen ?v @ DrawBackground # map DrawSprite ys"
    and k: "js_and (flags (scn ?v)) NeedsSorting \<noteq> 0 \<longrightarrow> mset ys = mset [0, 1] \<and>
              ((\<forall>r\<in>set [0, 1]. numeric_id (heap ?v r)) \<longrightarrow> sorted (map (\<lambda>r. sort_key (heap ?v r)) ys))"
    and d: "\<forall>wd. handle_RenderDiagnostics w' = Inr wd \<longrightarrow> flags (scn wd) = Some 0"
    by (elim exE conjE) (rule that, assumption+)
  have "\<exists>w''. renderCore ?v = Inr w'' \<and> allSprites (scn w'') = Some [1, 0] \<and>
          physicsEngine (scn w'') \<noteq> None"
    by (simp add: w_def request_sort_def Scene_new_def world0_def NeedsSorting_def
          handler_defs Let_def array_sort_def sprite_compare_def)
  with r a have ys: "ys = [1, 0]" and pe: "physicsEngine (scn w') \<noteq> None" by auto
  from k f n have so: "sorted (map (\<lambda>r. sort_key (heap ?v r)) ys)" by blast
  have sc: "screen ?v = []" by (simp add: w_def request_sort_def world0_def)
  from a pe obtain wd where wd: "handle_RenderDiagnostics w' = Inr wd"
    using handle_RenderDiagnostics_total [of w'] by auto
  with d have "flags (scn wd) = Some 0" by blast
  with w r f a s so sc wd show ?thesis unfolding ys by auto
qed

lemma render_cached: "cachedRender (scn w) = Some img \<Longrightarrow> render w = Inr (img, w)"
  by (simp add: render_def)

lemma render_caches:
  assumes "render w = Inr (img, w1)"
  shows "cachedRender (scn w1) = Some img"
proof (cases "cachedRender (scn w)")
  case (Some i)
  with assms show ?thesis by (simp add: render_def)
next
  case None
  with assms show ?thesis
    by (auto simp: render_def screen_clone_def Let_def dest!: bindE_eq_Inr)
qed

lemma render_fresh:
  assumes "cachedRender (scn w) = None" and "background (scn w) \<noteq> None"
    and "allSprites (scn w) = Some xs"
    and "ys = (if js_and (flags (scn w)) NeedsSorting \<noteq> 0
               then array_sort (\<lambda>a b. sprite_compare (heap w a) (heap w b)) xs else xs)"
  shows "\<exists>w'. render w = Inr (length (images w), w') \<and>
           images w' = images w @ [screen w'] \<and>
           screen w' = screen w @ DrawBackground # map DrawSprite ys \<and>
           scn w' = (scn w)\<lparr>allSprites := Some ys, cachedRender := Some (length (images w))\<rparr> \<and>
           heap w' = heap w"
proof -
  from renderCore_result [OF assms(2,3,4)] obtain v where
    "renderCore w = Inr v" "screen v = screen w @ DrawBackground # map DrawSprite ys"
    "scn v = (scn w)\<lparr>allSprites := Some ys\<rparr>" "images v = images w" "heap v = heap w"
    by blast
  then show ?thesis
    using assms(1) by (simp add: render_def screen_clone_def)
qed

lemma handle_RenderSprites_result:
  assumes "background (scn w) \<noteq> None" and "allSprites (scn w) = Some xs"
    and "ys = (if js_and (flags (scn w)) NeedsSorting \<noteq> 0
               then array_sort (\<lambda>a b. sprite_compare (heap w a) (heap w b)) xs else xs)"
  shows "\<exists>w'. handle_RenderSprites w = Inr w' \<and>
           screen w' = screen w @ DrawBackground # map DrawSprite ys \<and>
           scn w' = (scn w)\<lparr>allSprites := Some ys, cachedRender := None\<rparr> \<and>
           images w' = images w \<and> heap w' = heap w"
proof -
  let ?v = "(log_call (EnablePerfCounter ''sprite_draw'') w)
              \<lparr>scn := (scn (log_call (EnablePerfCounter ''sprite_draw'') w))\<lparr>cachedRender := None\<rparr>\<rparr>"
  have b: "background (scn ?v) \<noteq> None" and a: "allSprites (scn ?v) = Some xs"
    using assms(1,2) by (simp_all add: log_call_def)
  have y: "ys = (if js_and (flags (scn ?v)) NeedsSorting \<noteq> 0
               then array_sort (\<lambda>a b. sprite_compare (heap ?v a) (heap ?v b)) xs else xs)"
    using assms(3) by (simp add: log_call_def)
  from renderCore_result [OF b a y] obtain w' where
    "renderCore ?v = Inr w'" "screen w' = screen ?v @ DrawBackground # map DrawSprite ys"
    "scn w' = (scn ?v)\<lparr>allSprites := Some ys\<rparr>" "images w' = images ?v" "heap w' = heap ?v"
    by blast
  then show ?thesis
    by (simp add: handle_RenderSprites_def Let_def log_call_def)
qed

text \<open>
  C3. \<open>render()\<close> returns a set \<open>cachedRender\<close> unchanged and leaves the world as it
  is, so a second \<open>render()\<close> with nothing in between returns the identical image, and
  again changes nothing. The priority-90 handler sets \<open>cachedRender\<close> to \<open>undefined\<close>
  and draws; a \<open>render()\<close> after it performs the core draw sequence again on the sprite
  list \<open>xs\<close> that the scene holds at that moment: it draws the background and then
  every sprite of \<open>xs\<close> (in the order of \<open>xs\<close>, or sorted first if \<open>NeedsSorting\<close> is
  set), and returns a newly allocated image, other than any allocated before, that
  holds the screen after that draw.
\<close>

theorem render_idempotent_within_frame:
  "(cachedRender (scn w) = Some img \<longrightarrow> render w = Inr (img, w)) \<and>
   (render w = Inr (img, v) \<longrightarrow> render v = Inr (img, v)) \<and>
   (handle_RenderSprites w = Inr u \<longrightarrow>
      cachedRender (scn u) = None \<and>
      (\<exists>xs new w3 ys. allSprites (scn u) = Some xs \<and>
         render u = Inr (new, w3) \<and> new = length (images w) \<and>
         (\<forall>old < length (images w). new \<noteq> old) \<and>
         images w3 = images w @ [screen w3] \<and> allSprites (scn w3) = Some ys \<and>
         ys = (if js_and (flags (scn u)) NeedsSorting \<noteq> 0
               then array_sort (\<lambda>a b. sprite_compare (heap u a) (heap u b)) xs else xs) \<and>
         mset ys = mset xs \<and>
         screen w3 = screen u @ DrawBackground # map DrawSprite ys \<and>
         cachedRender (scn w3) = Some new))"
proof (intro conjI impI)
  assume "cachedRender (scn w) = Some img"
  then show "render w = Inr (img, w)" by (rule render_cached)
next
  assume "render w = Inr (img, v)"
  then have "cachedRender (scn v) = Some img" by (rule render_caches)
  then show "render v = Inr (img, v)" by (rule render_cached)
next
  assume h: "handle_RenderSprites w = Inr u"
  then show "cachedRender (scn u) = None" by (rule handle_RenderSprites_fields(1))
next
  assume h: "handle_RenderSprites w = Inr u"
  note f = handle_RenderSprites_fields [OF h]
  from f(3) obtain xs where xs: "allSprites (scn u) = Some xs" by auto
  define ys where "ys = (if js_and (flags (scn u)) NeedsSorting \<noteq> 0
               then array_sort (\<lambda>a b. sprite_compare (heap u a) (heap u b)) xs else xs)"
  have m: "mset ys = mset xs" by (simp add: ys_def mset_array_sort)
  from render_fresh [OF f(1,2) xs ys_def] obtain w3 where
    r: "render u = Inr (length (images u), w3)" and i: "images w3 = images u @ [screen w3]"
    and s: "screen w3 = screen u @ DrawBackground # map DrawSprite ys"
    and c: "scn w3 = (scn u)\<lparr>allSprites := Some ys, cachedRender := Some (length (images u))\<rparr>"
    by blast
  from c have a: "allSprites (scn w3) = Some ys"
    and cr: "cachedRender (scn w3) = Some (length (images u))" by simp_all
  show "\<exists>xs new w3 ys. allSprites (scn u) = Some xs \<and>
         render u = Inr (new, w3) \<and> new = length (images w) \<and>
         (\<forall>old < length (images w). new \<noteq> old) \<and>
         images w3 = images w @ [screen w3] \<and> allSprites (scn w3) = Some ys \<and>
         ys = (if js_and (flags (scn u)) NeedsSorting \<noteq> 0
               then array_sort (\<lambda>a b. sprite_compare (heap u a) (heap u b)) xs else xs) \<and>
         mset ys = mset xs \<and>
         screen w3 = screen u @ DrawBackground # map DrawSprite ys \<and>
         cachedRender (scn w3) = Some new"
    apply (rule exI [of _ xs], rule exI [of _ "length (images w)"],
           rule exI [of _ w3], rule exI [of _ ys])
    using xs r i s a cr m f(4) ys_def by simp
qed

theorem render_idempotent_within_frame_witness:
  "\<exists>w v u w3. two_sprites = Inr w \<and> render w = Inr (0, v) \<and> render v = Inr (0, v) \<and>
     images v = [[DrawBackground, DrawSprite 0, DrawSprite 1]] \<and>
     handle_RenderSprites v = Inr u \<and> cachedRender (scn u) = None \<and>
     allSprites (scn u) = Some [0, 1] \<and>
     render u = Inr (1, w3) \<and> cachedRender (scn w3) = Some 1 \<and>
     allSprites (scn w3) = Some [0, 1] \<and>
     screen w3 = screen u @ [DrawBackground, DrawSprite 0, DrawSprite 1] \<and>
     images w3 = [[DrawBackground, DrawSprite 0, DrawSprite 1],
                  [DrawBackground, DrawSprite 0, DrawSprite 1,
                   DrawBackground, DrawSprite 0, DrawSprite 1,
                   DrawBackground, DrawSprite 0, DrawSprite 1]]"
proof -
  from two_sprites_value obtain w where w: "two_sprites = Inr w"
    and w_def: "w = world0\<lparr>trace := [PowerPoke],
      heap := heap0(0 := \<lparr>sprite_z = 5, sprite_id = Some (Num 0)\<rparr>,
                    1 := \<lparr>sprite_z = 1, sprite_id = Some (Num 1)\<rparr>),
      scn := (Scene_new ec0)\<lparr>allSprites := Some [0, 1], spriteNextId := Some (Num 2),
               eventContext := Some (ec0\<lparr>frameCallbacks := init_callbacks\<rparr>)\<rparr>\<rparr>"
    by simp
  have f: "cachedRender (scn w) = None" "background (scn w) \<noteq> None"
      "allSprites (scn w) = Some [0, 1]"
    by (simp_all add: w_def Scene_new_def)
  have g: "[0, 1] = (if js_and (flags (scn w)) NeedsSorting \<noteq> 0
               then array_sort (\<lambda>a b. sprite_compare (heap w a) (heap w b)) [0, 1] else [0, 1])"
    by (simp add: w_def Scene_new_def)
  have im: "images w = []" "screen w = []"
    by (simp_all add: w_def world0_def)
  from render_fresh [OF f g] obtain v where
    v0: "render w = Inr (length (images w), v)" and i: "images v = images w @ [screen v]"
    and sv0: "screen v = screen w @ DrawBackground # map DrawSprite [0, 1]"
    and cv: "scn v = (scn w)\<lparr>allSprites := Some [0, 1], cachedRender := Some (length (images w))\<rparr>"
    by (elim exE conjE) (rule that, assumption+)
  from v0 im have v: "render w = Inr (0, v)" by simp
  from sv0 im have sv: "screen v = [DrawBackground, DrawSprite 0, DrawSprite 1]" by simp
  from i im sv have iv: "images v = [[DrawBackground, DrawSprite 0, DrawSprite 1]]" by simp
  from cv f(2) have b: "background (scn v) \<noteq> None" by simp
  from cv have a: "allSprites (scn v) = Some [0, 1]" by simp
  have gv: "[0, 1] = (if js_and (flags (scn v)) NeedsSorting \<noteq> 0
               then array_sort (\<lambda>a b. sprite_compare (heap v a) (heap v b)) [0, 1] else [0, 1])"
    by (simp add: cv w_def Scene_new_def)
  note t = render_idempotent_within_frame
  from t [where w = w and img = 0 and v = v] v have v2: "render v = Inr (0, v)" by blast
  from handle_RenderSprites_result [OF b a gv] obtain u where
    u: "handle_RenderSprites v = Inr u"
    and su: "screen u = screen v @ DrawBackground # map DrawSprite [0, 1]"
    and cu: "scn u = (scn v)\<lparr>allSprites := Some [0, 1], cachedRender := None\<rparr>"
    by (elim exE conjE) (rule that, assumption+)
  from cu have au: "allSprites (scn u) = Some [0, 1]"
    and fu: "js_and (flags (scn u)) NeedsSorting = 0"
    by (simp_all add: cv w_def Scene_new_def)
  from t [where w = v and u = u] u have
    c: "cachedRender (scn u) = None" and
    e: "\<exists>xs new w3 ys. allSprites (scn u) = Some xs \<and>
         render u = Inr (new, w3) \<and> new = length (images v) \<and>
         (\<forall>old < length (images v). new \<noteq> old) \<and>
         images w3 = images v @ [screen w3] \<and> allSprites (scn w3) = Some ys \<and>
         ys = (if js_and (flags (scn u)) NeedsSorting \<noteq> 0
               then array_sort (\<lambda>a b. sprite_compare (heap u a) (heap u b)) xs else xs) \<and>
         mset ys = mset xs \<and>
         screen w3 = screen u @ DrawBackground # map DrawSprite ys \<and>
         cachedRender (scn w3) = Some new"
    by blast+
  from e obtain xs new w3 ys where x: "allSprites (scn u) = Some xs"
    and r3: "render u = Inr (new, w3)" and n: "new = length (images v)"
    and i3: "images w3 = images v @ [screen w3]" and a3: "allSprites (scn w3) = Some ys"
    and y: "ys = (if js_and (flags (scn u)) NeedsSorting \<noteq> 0
               then array_sort (\<lambda>a b. sprite_compare (heap u a) (heap u b)) xs else xs)"
    and s3: "screen w3 = screen u @ DrawBackground # map DrawSprite ys"
    and c3: "cachedRender (scn w3) = Some new"
    by (elim exE conjE) (rule that, assumption+)
  from x au have xs: "xs = [0, 1]" by simp
  from y fu xs have ys: "ys = [0, 1]" by simp
  from n iv have n1: "new = 1" by simp
  from s3 ys have s3': "screen w3 = screen u @ [DrawBackground, DrawSprite 0, DrawSprite 1]"
    by simp
  from i3 iv s3' su sv have i3': "images w3 = [[DrawBackground, DrawSprite 0, DrawSprite 1],
                  [DrawBackground, DrawSprite 0, DrawSprite 1,
                   DrawBackground, DrawSprite 0, DrawSprite 1,
                   DrawBackground, DrawSprite 0, DrawSprite 1]]"
    by simp
  from r3 c3 n1 have "render u = Inr (1, w3)" "cachedRender (scn w3) = Some 1" by simp_all
  moreover from a3 ys have "allSprites (scn w3) = Some [0, 1]" by simp
  ultimately show ?thesis
    using w v v2 iv u c au s3' i3' by blast
qed

section \<open>Serial: writing\<close>

lemma sent_writeString:
  "device st \<noteq> None \<Longrightarrow> sent (writeString text st) = sent st @ text"
  by (auto simp: writeString_def writeBuffer_def sent_def Device_writeBuffer_def
        createBufferFromUTF8_def)

lemma writeString_keeps:
  "NEW_LINE (writeString text st) = NEW_LINE st"
  "device st \<noteq> None \<Longrightarrow> device (writeString text st) \<noteq> None"
  by (auto simp: writeString_def writeBuffer_def split: option.splits)

lemma sent_writeLine:
  assumes "device st \<noteq> None"
  shows "sent (writeLine text st) = sent st @ text @ NEW_LINE st"
proof -
  have "writeLine text st = writeString (NEW_LINE st) (writeString text st)"
    by (simp add: writeLine_def Let_def writeString_keeps(1))
  moreover have "sent (writeString (NEW_LINE st) (writeString text st)) =
      sent (writeString text st) @ NEW_LINE st"
    by (rule sent_writeString [OF writeString_keeps(2) [OF assms]])
  ultimately show ?thesis by (simp only: sent_writeString [OF assms] append_assoc)
qed

lemma sent_writeNumber_line:
  assumes "device st \<noteq> None"
  shows "sent (writeString (NEW_LINE st) (writeNumber toString v st)) =
           sent st @ toString v @ NEW_LINE st"
proof -
  have "device (writeNumber toString v st) \<noteq> None"
    unfolding writeNumber_def by (rule writeString_keeps(2) [OF assms])
  then have "sent (writeString (NEW_LINE st) (writeNumber toString v st)) =
               sent (writeNumber toString v st) @ NEW_LINE st"
    by (rule sent_writeString)
  then show ?thesis
    by (simp only: writeNumber_def sent_writeString [OF assms] append_assoc)
qed

lemma sent_writeValue_empty:
  assumes "device st \<noteq> None"
  shows "sent (writeValue toString [] v st) = sent st @ toString v @ NEW_LINE st"
proof -
  have "writeValue toString [] v st = writeString (NEW_LINE st) (writeNumber toString v st)"
    by (simp add: writeValue_def Let_def writeNumber_def writeString_keeps(1))
  then show ?thesis by (simp only: sent_writeNumber_line [OF assms])
qed

lemma sent_writeValue_named:
  assumes "device st \<noteq> None" and "name \<noteq> []"
  shows "sent (writeValue toString name v st) =
           sent st @ name @ '':'' @ toString v @ NEW_LINE st"
proof -
  define s1 where "s1 = writeString '':'' (writeString name st)"
  have d1: "device (writeString name st) \<noteq> None"
    by (rule writeString_keeps(2) [OF assms(1)])
  then have d: "device s1 \<noteq> None"
    unfolding s1_def by (rule writeString_keeps(2))
  have n: "NEW_LINE s1 = NEW_LINE st"
    unfolding s1_def by (simp only: writeString_keeps(1))
  have w: "writeValue toString name v st = writeString (NEW_LINE s1) (writeNumber toString v s1)"
    using assms(2)
    by (simp add: writeValue_def Let_def writeNumber_def writeString_keeps(1) s1_def)
  have "sent (writeString (NEW_LINE s1) (writeNumber toString v s1)) =
          sent s1 @ toString v @ NEW_LINE s1"
    by (rule sent_writeNumber_line [OF d])
  with w n have "sent (writeValue toString name v st) = sent s1 @ toString v @ NEW_LINE st"
    by simp
  moreover have "sent s1 = sent st @ name @ '':''"
    unfolding s1_def
    by (simp only: sent_writeString [OF d1] sent_writeString [OF assms(1)] append_assoc)
  ultimately show ?thesis by simp
qed

text \<open>
  C8. With a transport device, and \<open>NEW_LINE\<close> holding the value the namespace gives it,
  \<open>writeLine(s)\<close> sends exactly the bytes of \<open>s\<close> followed by CR LF;
  \<open>writeValue(name, v)\<close> with a non-empty name sends the bytes of the name, a colon, the
  rendering \<open>v.toString()\<close> of the number and CR LF; with the empty name it sends the
  rendering of the number and CR LF. This holds for every number \<open>v\<close>, whatever the
  library's rendering of it is.
\<close>

theorem write_line_and_value_bytes:
  assumes "device st \<noteq> None" and "NEW_LINE st = CRLF"
  shows "sent (writeLine s st) = sent st @ s @ CRLF \<and>
         (name \<noteq> [] \<longrightarrow> sent (writeValue toString name v st) = sent st @ name @ '':'' @ toString v @ CRLF) \<and>
         sent (writeValue toString [] v st) = sent st @ toString v @ CRLF"
  using assms by (simp add: sent_writeLine sent_writeValue_empty sent_writeValue_named)


theorem write_line_and_value_bytes_witness:
  "sent (writeLine ''x'' (serial_init (Some (usb [])))) = ''x'' @ CRLF \<and>
   sent (writeValue decimal_digits ''temp'' 21 (serial_init (Some (usb [])))) = ''temp:21'' @ CRLF \<and>
   sent (writeValue decimal_digits [] 5 (serial_init (Some (usb [])))) = ''5'' @ CRLF"
proof -
  have d: "device (serial_init (Some (usb []))) \<noteq> None"
    "NEW_LINE (serial_init (Some (usb []))) = CRLF"
    by (simp_all add: serial_init_def)
  have s: "sent (serial_init (Some (usb []))) = []"
    by (simp add: sent_def serial_init_def usb_def)
  have n: "decimal_digits 21 = ''21''" "decimal_digits 5 = ''5''"
    by (simp_all add: decimal_digits_def nat_toString.simps [of 21] nat_toString.simps [of 2]
          nat_toString.simps [of 1] nat_toString.simps [of 5] digit_char_def)
  from write_line_and_value_bytes [OF d, where s = "''x''" and name = "''temp''"
         and toString = decimal_digits and v = 21]
       write_line_and_value_bytes [OF d, where s = "''x''" and name = "''temp''"
         and toString = decimal_digits and v = 5]
  show ?thesis by (simp add: s n)
qed

section \<open>Serial: reading until a delimiter\<close>


lemma loop_hit:
  "UTF8Decoder_decodeUntil d (the_decoder st) = Some (s, dec) \<Longrightarrow>
   readUntil_loop d T start st = Some (s, st\<lparr>u_decoder := Some dec\<rparr>)"
  by (subst readUntil_loop.simps) simp

lemma loop_miss:
  "d \<notin> set (dbuf (the_decoder st)) \<Longrightarrow>
   readUntil_loop d T start st =
     (case T of
        None \<Rightarrow> readUntil_loop d T start (poll_round st)
      | Some t \<Rightarrow> if millis (poll_round st) - start < t
                  then readUntil_loop d T start (poll_round st)
                  else Some ([], poll_round st))"
  by (subst readUntil_loop.simps, cases T)
     (simp_all add: UTF8Decoder_decodeUntil_def poll_round_def Let_def split: prod.splits)

lemma poll_round_fields:
  "millis (poll_round st) = millis st + 1"
  "dbuf (the_decoder (poll_round st)) = buffered 1 st"
  "received (poll_round st) = tl (received st)"
  "NEW_LINE (poll_round st) = NEW_LINE st"
  by (auto simp: poll_round_def readBuffer_def Device_readBuffer_def pause_def
        the_decoder_def UTF8Decoder_add_def buffered_def received_def createBuffer_def
        Let_def take_Suc split: option.splits list.splits prod.splits)


lemma buffered_0: "buffered 0 st = dbuf (the_decoder st)"
  by (simp add: buffered_def)

lemma buffered_poll_round: "buffered k (poll_round st) = buffered (Suc k) st"
proof -
  have "take (Suc k) (received st) = take 1 (received st) @ take k (tl (received st))"
    by (cases "received st") simp_all
  then show ?thesis
    by (simp add: buffered_def [of k] buffered_def [of "Suc k"] poll_round_fields)
       (simp add: buffered_def)
qed

lemma buffered_mono: "j \<le> k \<Longrightarrow> set (buffered j st) \<subseteq> set (buffered k st)"
proof -
  assume "j \<le> k"
  then have "take k (received st) = take j (received st) @ take (k - j) (drop j (received st))"
    by (metis le_add_diff_inverse take_add)
  then show ?thesis by (auto simp: buffered_def)
qed

lemma poll_rounds_fields:
  "millis ((poll_round ^^ k) st) = millis st + int k"
  "dbuf (the_decoder ((poll_round ^^ k) st)) = buffered k st"
  "device st = None \<Longrightarrow> device ((poll_round ^^ k) st) = None"
proof (induction k arbitrary: st)
  case 0
  {
    case 1 show ?case by simp
  next
    case 2 show ?case by (simp add: buffered_0)
  next
    case 3 then show ?case by simp
  }
next
  case (Suc k)
  {
    case 1 show ?case
      by (simp add: funpow_swap1 Suc.IH(1) poll_round_fields)
  next
    case 2 show ?case
      by (simp add: funpow_swap1 Suc.IH(2) buffered_poll_round)
  next
    case 3
    then have "device (poll_round st) = None"
      by (simp add: poll_round_def readBuffer_def pause_def Let_def)
    then show ?case
      by (simp add: funpow_swap1 Suc.IH(3))
  }
qed

lemma loop_found:
  assumes "d \<in> set (dbuf (the_decoder st))"
  shows "readUntil_loop d T start st =
           Some (takeWhile (\<lambda>c. c \<noteq> d) (dbuf (the_decoder st)),
                 st\<lparr>u_decoder := Some ((the_decoder st)
                        \<lparr>dbuf := tl (dropWhile (\<lambda>c. c \<noteq> d) (dbuf (the_decoder st)))\<rparr>)\<rparr>)"
  by (rule loop_hit) (simp add: UTF8Decoder_decodeUntil_def assms)

lemma loop_skip:
  assumes "k > 0 \<longrightarrow> d \<notin> set (buffered (k - 1) st)"
    and "\<forall>t. T = Some t \<longrightarrow> k = 0 \<or> millis st + int k - start < t"
  shows "readUntil_loop d T start st = readUntil_loop d T start ((poll_round ^^ k) st)"
  using assms
proof (induction k arbitrary: st)
  case 0
  show ?case by simp
next
  case (Suc k)
  from Suc.prems(1) have nk: "d \<notin> set (buffered k st)" by simp
  with buffered_mono [of 0 k st] have "d \<notin> set (dbuf (the_decoder st))"
    by (auto simp: buffered_0)
  then have m: "readUntil_loop d T start st =
     (case T of
        None \<Rightarrow> readUntil_loop d T start (poll_round st)
      | Some t \<Rightarrow> if millis (poll_round st) - start < t
                  then readUntil_loop d T start (poll_round st)
                  else Some ([], poll_round st))"
    by (rule loop_miss)
  have c: "readUntil_loop d T start st = readUntil_loop d T start (poll_round st)"
  proof (cases T)
    case None
    with m show ?thesis by simp
  next
    case (Some t)
    with Suc.prems(2) have "millis st + int (Suc k) - start < t" by simp
    then have "millis (poll_round st) - start < t" by (simp add: poll_round_fields)
    with m Some show ?thesis by simp
  qed
  have p1: "k > 0 \<longrightarrow> d \<notin> set (buffered (k - 1) (poll_round st))"
    using nk by (auto simp: buffered_poll_round)
  have p2: "\<forall>t. T = Some t \<longrightarrow> k = 0 \<or> millis (poll_round st) + int k - start < t"
    using Suc.prems(2) by (auto simp: poll_round_fields)
  from Suc.IH [OF p1 p2] c show ?case by (simp add: funpow_swap1)
qed

lemma loop_timeout:
  assumes "d \<notin> set (buffered (rounds t - 1) st)" and "start = millis st"
  shows "readUntil_loop d (Some t) start st = Some ([], (poll_round ^^ rounds t) st)"
proof -
  define k where "k = rounds t - 1"
  have r: "rounds t = Suc k" by (simp add: k_def rounds_def)
  have a1: "k > 0 \<longrightarrow> d \<notin> set (buffered (k - 1) st)"
  proof -
    have "set (buffered (k - 1) st) \<subseteq> set (buffered k st)"
      by (rule buffered_mono) simp
    with assms(1) show ?thesis unfolding k_def by blast
  qed
  have a2: "\<forall>u. Some t = Some u \<longrightarrow> k = 0 \<or> millis st + int k - start < u"
    using assms(2) by (auto simp: k_def rounds_def)
  let ?s = "(poll_round ^^ k) st"
  have "d \<notin> set (dbuf (the_decoder ?s))"
    using assms(1) by (simp add: poll_rounds_fields k_def)
  then have "readUntil_loop d (Some t) start ?s =
      (if millis (poll_round ?s) - start < t
       then readUntil_loop d (Some t) start (poll_round ?s) else Some ([], poll_round ?s))"
    by (simp add: loop_miss)
  moreover have "\<not> millis (poll_round ?s) - start < t"
  proof -
    have "t \<le> int (rounds t)" unfolding rounds_def by linarith
    moreover have "millis (poll_round ?s) - start = int (Suc k)"
      using assms(2) by (simp add: poll_round_fields poll_rounds_fields)
    ultimately show ?thesis using r by simp
  qed
  ultimately have "readUntil_loop d (Some t) start ?s = Some ([], poll_round ?s)" by simp
  with loop_skip [OF a1 a2] show ?thesis by (simp add: r)
qed

lemma loop_forever:
  assumes "readUntil_loop d T start st = Some y"
  shows "\<not> (T = None \<and> (\<forall>k. d \<notin> set (buffered k st)))"
proof (rule readUntil_loop.raw_induct
    [where P = "\<lambda>d T start st y. \<not> (T = None \<and> (\<forall>k. d \<notin> set (buffered k st)))", OF _ assms])
  fix f :: "Delimiters \<Rightarrow> int option \<Rightarrow> int \<Rightarrow> serial_state \<Rightarrow> (string \<times> serial_state) option"
  fix d T start st y
  assume IH: "\<And>d T start st y. f d T start st = Some y \<Longrightarrow>
                 \<not> (T = None \<and> (\<forall>k. d \<notin> set (buffered k st)))"
    and body: "(case UTF8Decoder_decodeUntil d (the_decoder st) of
        None \<Rightarrow>
          let (b, st) = readBuffer st;
              st = st\<lparr>u_decoder := Some (UTF8Decoder_add b (the_decoder st))\<rparr>;
              st = pause 1 st
          in case T of None \<Rightarrow> f d T start st
             | Some t \<Rightarrow> if millis st - start < t then f d T start st else Some ([], st)
      | Some (s, d) \<Rightarrow> Some (s, st\<lparr>u_decoder := Some d\<rparr>)) = Some y"
  show "\<not> (T = None \<and> (\<forall>k. d \<notin> set (buffered k st)))"
  proof
    assume a: "T = None \<and> (\<forall>k. d \<notin> set (buffered k st))"
    then have n: "T = None" and never: "\<forall>k. d \<notin> set (buffered k st)" by simp_all
    from never have "d \<notin> set (dbuf (the_decoder st))" by (metis buffered_0)
    then have "UTF8Decoder_decodeUntil d (the_decoder st) = None"
      by (simp add: UTF8Decoder_decodeUntil_def)
    with body n have fy: "f d T start (poll_round st) = Some y"
      by (simp add: poll_round_def Let_def split: prod.splits)
    have "\<not> (T = None \<and> (\<forall>k. d \<notin> set (buffered k (poll_round st))))"
      by (rule IH [OF fy])
    moreover have "\<forall>k. d \<notin> set (buffered k (poll_round st))"
      using never by (simp add: buffered_poll_round)
    ultimately show False using n by simp
  qed
qed


lemma decoder_fields:
  "the_decoder (decoder st) = the_decoder st"
  "millis (decoder st) = millis st"
  "device (decoder st) = device st"
  "buffered k (decoder st) = buffered k st"
  by (simp_all add: decoder_def the_decoder_def buffered_def received_def split: option.splits)

lemma readUntil_found:
  assumes "d \<in> set (buffered k st)" and "k > 0 \<longrightarrow> d \<notin> set (buffered (k - 1) st)"
    and "\<forall>t. T = Some t \<longrightarrow> k = 0 \<or> int k < t"
  shows "\<exists>st'. readUntil d T st = Some (takeWhile (\<lambda>c. c \<noteq> d) (buffered k st), st') \<and>
          millis st' = millis st + int k \<and>
          dbuf (the_decoder st') = tl (dropWhile (\<lambda>c. c \<noteq> d) (buffered k st))"
proof -
  let ?s = "decoder st"
  let ?r = "(poll_round ^^ k) ?s"
  have a1: "k > 0 \<longrightarrow> d \<notin> set (buffered (k - 1) ?s)"
    using assms(2) by (simp add: decoder_fields)
  have a2: "\<forall>t. T = Some t \<longrightarrow> k = 0 \<or> millis ?s + int k - millis ?s < t"
    using assms(3) by simp
  have b: "dbuf (the_decoder ?r) = buffered k st"
    by (simp add: poll_rounds_fields decoder_fields)
  with assms(1) have "d \<in> set (dbuf (the_decoder ?r))" by simp
  from loop_found [OF this, of T "millis ?s"] loop_skip [OF a1 a2]
  have "readUntil d T st =
      Some (takeWhile (\<lambda>c. c \<noteq> d) (buffered k st),
            ?r\<lparr>u_decoder := Some ((the_decoder ?r)
                   \<lparr>dbuf := tl (dropWhile (\<lambda>c. c \<noteq> d) (buffered k st))\<rparr>)\<rparr>)"
    by (simp add: readUntil_def Let_def b)
  moreover have "millis ?r = millis st + int k"
    by (simp add: poll_rounds_fields decoder_fields)
  ultimately show ?thesis by (simp add: the_decoder_def)
qed

lemma readUntil_timeout:
  assumes "d \<notin> set (buffered (rounds t - 1) st)"
  shows "\<exists>st'. readUntil d (Some t) st = Some ([], st') \<and>
          millis st' = millis st + int (rounds t) \<and>
          dbuf (the_decoder st') = buffered (rounds t) st \<and>
          (device st = None \<longrightarrow> device st' = None)"
proof -
  let ?s = "decoder st"
  from assms have "d \<notin> set (buffered (rounds t - 1) ?s)" by (simp add: decoder_fields)
  from loop_timeout [OF this refl]
  have "readUntil d (Some t) st = Some ([], (poll_round ^^ rounds t) ?s)"
    by (simp add: readUntil_def Let_def)
  then show ?thesis
    by (simp add: poll_rounds_fields decoder_fields)
qed

lemma readUntil_forever:
  assumes "\<forall>k. d \<notin> set (buffered k st)"
  shows "readUntil d None st = None"
proof (cases "readUntil d None st")
  case None
  then show ?thesis .
next
  case (Some y)
  then have "readUntil_loop d None (millis (decoder st)) (decoder st) = Some y"
    by (simp add: readUntil_def Let_def)
  from loop_forever [OF this] assms show ?thesis by (simp add: decoder_fields)
qed

text \<open>
  C7 (as amended). \<open>readUntil(delimiter, T)\<close> works in rounds one time unit apart. Each
  round first looks for the delimiter in what the decoder has buffered; if it is there
  the call returns at once the text up to and excluding the delimiter (and the decoder
  keeps what follows it). Otherwise the round reads the receive buffer into the decoder
  and pauses 1, and the call gives up with the empty string when \<open>T\<close> has elapsed,
  without looking at what the last round read. So the text is returned in round \<open>k\<close>
  (at time \<open>k\<close>) when the delimiter first is among the bytes buffered after \<open>k\<close> reads
  and \<open>k = 0\<close> or \<open>k < T\<close>; the empty string is returned after \<open>max 1 T\<close> rounds when
  the delimiter is not among the bytes buffered before the last read; and with no
  timeout the call returns in the first round that finds the delimiter, and never
  returns if none does.
\<close>

theorem readUntil_polling:
  "(d \<in> set (buffered k st) \<and> (k > 0 \<longrightarrow> d \<notin> set (buffered (k - 1) st)) \<and>
    (\<forall>t. T = Some t \<longrightarrow> k = 0 \<or> int k < t) \<longrightarrow>
      (\<exists>st'. readUntil d T st = Some (takeWhile (\<lambda>c. c \<noteq> d) (buffered k st), st') \<and>
             millis st' = millis st + int k \<and>
             dbuf (the_decoder st') = tl (dropWhile (\<lambda>c. c \<noteq> d) (buffered k st)))) \<and>
   (d \<notin> set (buffered (rounds t - 1) st) \<longrightarrow>
      (\<exists>st'. readUntil d (Some t) st = Some ([], st') \<and>
             millis st' = millis st + int (rounds t) \<and>
             dbuf (the_decoder st') = buffered (rounds t) st)) \<and>
   ((\<forall>k. d \<notin> set (buffered k st)) \<longrightarrow> readUntil d None st = None)"
proof (intro conjI impI)
  assume "d \<in> set (buffered k st) \<and> (k > 0 \<longrightarrow> d \<notin> set (buffered (k - 1) st)) \<and>
    (\<forall>t. T = Some t \<longrightarrow> k = 0 \<or> int k < t)"
  then show "\<exists>st'. readUntil d T st = Some (takeWhile (\<lambda>c. c \<noteq> d) (buffered k st), st') \<and>
             millis st' = millis st + int k \<and>
             dbuf (the_decoder st') = tl (dropWhile (\<lambda>c. c \<noteq> d) (buffered k st))"
    using readUntil_found [of d k st T] by blast
next
  assume "d \<notin> set (buffered (rounds t - 1) st)"
  from readUntil_timeout [OF this]
  show "\<exists>st'. readUntil d (Some t) st = Some ([], st') \<and>
             millis st' = millis st + int (rounds t) \<and>
             dbuf (the_decoder st') = buffered (rounds t) st"
    by blast
next
  assume "\<forall>k. d \<notin> set (buffered k st)"
  then show "readUntil d None st = None" by (rule readUntil_forever)
qed


lemma line_waiting_buffered:
  "buffered 0 line_waiting = []"
  "buffered (Suc 0) line_waiting = ''hi'' @ [Delimiters_NewLine]"
  "millis line_waiting = 0"
  by (simp_all add: buffered_def line_waiting_def serial_init_def usb_def the_decoder_def
        received_def UTF8Decoder_new_def)

theorem readUntil_polling_witness:
  "(\<exists>st'. readUntil Delimiters_NewLine (Some 5) line_waiting = Some (''hi'', st') \<and>
          millis st' = 1 \<and> dbuf (the_decoder st') = []) \<and>
   (\<exists>st'. readUntil Delimiters_NewLine (Some 3) (serial_init (Some (usb [''ab'', ''cd'']))) =
            Some ([], st') \<and> millis st' = 3 \<and> dbuf (the_decoder st') = ''abcd'') \<and>
   readUntil Delimiters_NewLine None (serial_init None) = None"
proof -
  let ?nl = Delimiters_NewLine
  let ?s2 = "serial_init (Some (usb [''ab'', ''cd'']))"
  let ?s3 = "serial_init None"
  have h1: "?nl \<in> set (buffered (Suc 0) line_waiting) \<and>
      (Suc 0 > 0 \<longrightarrow> ?nl \<notin> set (buffered (Suc 0 - 1) line_waiting)) \<and>
      (\<forall>t. Some 5 = Some t \<longrightarrow> Suc 0 = 0 \<or> int (Suc 0) < t)"
    by (simp add: line_waiting_buffered)
  have r3: "rounds 3 = 3" by (simp add: rounds_def)
  have b2: "buffered 2 ?s2 = ''abcd''" "buffered 3 ?s2 = ''abcd''" "millis ?s2 = 0"
    by (simp_all add: buffered_def serial_init_def usb_def the_decoder_def received_def
          UTF8Decoder_new_def)
  have h2: "?nl \<notin> set (buffered (rounds 3 - 1) ?s2)"
    by (simp add: r3 b2 Delimiters_NewLine_def)
  have h3: "\<forall>k. ?nl \<notin> set (buffered k ?s3)"
    by (simp add: buffered_def serial_init_def the_decoder_def received_def UTF8Decoder_new_def)
  note t = readUntil_polling
  from t [where d = ?nl and k = "Suc 0" and st = line_waiting and T = "Some 5"] h1
  have c1: "\<exists>st'. readUntil ?nl (Some 5) line_waiting =
              Some (takeWhile (\<lambda>c. c \<noteq> ?nl) (buffered (Suc 0) line_waiting), st') \<and>
            millis st' = millis line_waiting + int (Suc 0) \<and>
            dbuf (the_decoder st') = tl (dropWhile (\<lambda>c. c \<noteq> ?nl) (buffered (Suc 0) line_waiting))"
    by blast
  from t [where d = ?nl and st = ?s2 and t = 3] h2
  have c2: "\<exists>st'. readUntil ?nl (Some 3) ?s2 = Some ([], st') \<and>
            millis st' = millis ?s2 + int (rounds 3) \<and>
            dbuf (the_decoder st') = buffered (rounds 3) ?s2"
    by blast
  from t [where d = ?nl and st = ?s3] h3
  have c3: "readUntil ?nl None ?s3 = None" by blast
  from c1 have "\<exists>st'. readUntil ?nl (Some 5) line_waiting = Some (''hi'', st') \<and>
          millis st' = 1 \<and> dbuf (the_decoder st') = []"
    by (simp add: line_waiting_buffered Delimiters_NewLine_def)
  moreover from c2 have "\<exists>st'. readUntil ?nl (Some 3) ?s2 = Some ([], st') \<and>
          millis st' = 3 \<and> dbuf (the_decoder st') = ''abcd''"
    by (simp add: r3 b2)
  ultimately show ?thesis using c3 by blast
qed

text \<open>
  The claim as stated fails at the last round: the line "hi" is in the receive buffer
  when \<open>readUntil\<close> is called with a timeout of 1; the only round reads it into the
  decoder at time 0, and the call returns the empty string at time 1. With a timeout of
  2 the same call returns "hi".
\<close>

theorem readUntil_last_round_counterexample:
  "received line_waiting = [''hi'' @ [Delimiters_NewLine]] \<and>
   map_option fst (readUntil Delimiters_NewLine (Some 1) line_waiting) = Some [] \<and>
   map_option fst (readUntil Delimiters_NewLine (Some 2) line_waiting) = Some ''hi''"
proof -
  let ?nl = Delimiters_NewLine
  have "received line_waiting = [''hi'' @ [?nl]]"
    by (simp add: received_def line_waiting_def serial_init_def usb_def)
  moreover have "map_option fst (readUntil ?nl (Some 1) line_waiting) = Some []"
  proof -
    have "rounds 1 - 1 = 0" by (simp add: rounds_def)
    then have "?nl \<notin> set (buffered (rounds 1 - 1) line_waiting)"
      by (simp add: line_waiting_buffered)
    from readUntil_timeout [OF this] show ?thesis by auto
  qed
  moreover have "map_option fst (readUntil ?nl (Some 2) line_waiting) = Some ''hi''"
  proof -
    have "?nl \<in> set (buffered (Suc 0) line_waiting)"
      "Suc 0 > 0 \<longrightarrow> ?nl \<notin> set (buffered (Suc 0 - 1) line_waiting)"
      "\<forall>t. Some (2::int) = Some t \<longrightarrow> Suc 0 = 0 \<or> int (Suc 0) < t"
      by (simp_all add: line_waiting_buffered)
    from readUntil_found [OF this] show ?thesis
      by (auto simp: line_waiting_buffered Delimiters_NewLine_def)
  qed
  ultimately show ?thesis by blast
qed

section \<open>Serial: no transport device\<close>

lemma no_device_buffered: "no_device st \<Longrightarrow> buffered k st = []"
  by (simp add: no_device_def buffered_def received_def)

lemma no_device_writes:
  assumes "device st = None"
  shows "writeBuffer b st = st" and "writeString s st = st" and "writeLine s st = st"
    and "writeNumber toString v st = st" and "writeValue toString name v st = st"
    and "logListener p s st = st"
proof -
  show b: "writeBuffer b st = st" for b
    using assms by (simp add: writeBuffer_def)
  show s: "writeString s st = st" for s
    by (simp add: writeString_def b)
  show l: "writeLine s st = st"
    by (simp add: writeLine_def Let_def s)
  show "writeNumber toString v st = st"
    by (simp add: writeNumber_def s)
  show "writeValue toString name v st = st"
    by (simp add: writeValue_def writeNumber_def Let_def s)
  show "logListener p s st = st"
    by (cases p) (simp_all add: logListener_def Let_def s l)
qed

lemma no_device_config:
  assumes "device st = None"
  shows "setRxBufferSize n st = st" and "setTxBufferSize n st = st" and "setBaudRate n st = st"
    and "redirect a b n st = st" and "onEvent e h st = st" and "attachToConsole st = st"
  using assms
  by (simp_all add: setRxBufferSize_def setTxBufferSize_def setBaudRate_def redirect_def
        onEvent_def attachToConsole_def)

lemma no_device_reads:
  assumes "no_device st"
  shows "readBuffer st = ([], st)" and "read k st = (k, st)"
    and "fst (readString st) = [] \<and> no_device (snd (readString st))"
proof -
  from assms have d: "device st = None" and e: "dbuf (the_decoder st) = []"
    by (simp_all add: no_device_def)
  show r: "readBuffer st = ([], st)"
    using d by (simp add: readBuffer_def createBuffer_def)
  show "read k st = (k, st)"
    using d by (simp add: read_def)
  show "fst (readString st) = [] \<and> no_device (snd (readString st))"
    using d e
    by (simp add: readString_def r Let_def decoder_fields UTF8Decoder_add_def
          UTF8Decoder_decode_def no_device_def the_decoder_def decoder_def
          split: option.splits)
qed

text \<open>
  C9 (as amended). When no transport device is available, the write and configuration
  operations are no-ops, \<open>readBuffer\<close> returns an empty buffer, \<open>readString\<close> the
  empty string, and \<open>readUntil\<close> with a timeout the empty string once the timeout has
  elapsed; \<open>read\<close> returns the error code \<open>DAL.DEVICE_NOT_SUPPORTED\<close>, not zero; and
  \<open>readUntil\<close> without a timeout, hence \<open>readLine\<close>, never returns. No operation
  raises: none of them has an error result, since each tests the device before it
  uses it.
\<close>

theorem no_device_degrades:
  assumes "no_device st"
  shows "readBuffer st = ([], st) \<and>
         fst (readString st) = [] \<and> no_device (snd (readString st)) \<and>
         read k st = (k, st) \<and>
         (\<exists>st'. readUntil d (Some t) st = Some ([], st') \<and> no_device st' \<and>
                millis st' = millis st + int (rounds t)) \<and>
         readUntil d None st = None \<and> readLine st = None \<and>
         writeBuffer b st = st \<and> writeString s st = st \<and> writeLine s st = st \<and>
         writeNumber toString v st = st \<and> writeValue toString name v st = st \<and>
         setRxBufferSize n st = st \<and> setTxBufferSize n st = st \<and> setBaudRate n st = st \<and>
         redirect txPin rxPin n st = st \<and> onEvent e h st = st \<and> attachToConsole st = st"
proof -
  from assms have d: "device st = None" by (simp add: no_device_def)
  have never: "\<forall>k. c \<notin> set (buffered k st)" for c
    by (simp add: no_device_buffered [OF assms])
  have u: "\<exists>st'. readUntil d (Some t) st = Some ([], st') \<and> no_device st' \<and>
                millis st' = millis st + int (rounds t)"
  proof -
    from never have "d \<notin> set (buffered (rounds t - 1) st)" by blast
    from readUntil_timeout [OF this] d show ?thesis
      by (auto simp: no_device_def no_device_buffered [OF assms])
  qed
  have f: "readUntil d None st = None" "readLine st = None"
    using never by (simp_all add: readLine_def readUntil_forever)
  show ?thesis
    using u f
    by (simp add: no_device_reads [OF assms] no_device_writes [OF d] no_device_config [OF d])
qed

theorem no_device_degrades_witness:
  "no_device (serial_init None) \<and>
   readBuffer (serial_init None) = ([], serial_init None) \<and>
   fst (readString (serial_init None)) = [] \<and>
   read DAL_DEVICE_NOT_SUPPORTED (serial_init None) = (- 1002, serial_init None) \<and>
   map_option fst (readUntil Delimiters_NewLine (Some 10) (serial_init None)) = Some [] \<and>
   readLine (serial_init None) = None \<and>
   writeValue decimal_digits ''temp'' 21 (serial_init None) = serial_init None \<and>
   setBaudRate 9600 (serial_init None) = serial_init None"
proof -
  have n: "no_device (serial_init None)"
    by (simp add: no_device_def serial_init_def the_decoder_def UTF8Decoder_new_def)
  from no_device_degrades [OF n, where k = DAL_DEVICE_NOT_SUPPORTED and d = Delimiters_NewLine
        and t = 10 and name = "''temp''" and v = 21 and n = 9600 and toString = decimal_digits]
  have a: "readBuffer (serial_init None) = ([], serial_init None)"
    "fst (readString (serial_init None)) = []"
    "read DAL_DEVICE_NOT_SUPPORTED (serial_init None) = (DAL_DEVICE_NOT_SUPPORTED, serial_init None)"
    "\<exists>st'. readUntil Delimiters_NewLine (Some 10) (serial_init None) = Some ([], st')"
    "readLine (serial_init None) = None"
    "writeValue decimal_digits ''temp'' 21 (serial_init None) = serial_init None"
    "setBaudRate 9600 (serial_init None) = serial_init None"
    by blast+
  from a(4) have "map_option fst (readUntil Delimiters_NewLine (Some 10) (serial_init None)) = Some []"
    by auto
  with n a show ?thesis
    by (simp add: DAL_DEVICE_NOT_SUPPORTED_def)
qed

text \<open>
  The claim as stated fails for two read operations: without a device \<open>read()\<close>
  returns -1002, and \<open>readLine()\<close> does not return.
\<close>

theorem no_device_read_counterexample:
  "fst (read DAL_DEVICE_NOT_SUPPORTED (serial_init None)) = - 1002 \<and>
   readLine (serial_init None) = None"
proof -
  have "no_device (serial_init None)"
    by (simp add: no_device_def serial_init_def the_decoder_def UTF8Decoder_new_def)
  then have "\<forall>k. Delimiters_NewLine \<notin> set (buffered k (serial_init None))"
    by (simp add: no_device_buffered)
  then have "readLine (serial_init None) = None"
    by (simp add: readLine_def readUntil_forever)
  then show ?thesis
    by (simp add: read_def serial_init_def DAL_DEVICE_NOT_SUPPORTED_def)
qed

end
